theory Spec2Isabelle
  imports Complex_Main "HOL-Library.Multiset"
begin

section \<open>JavaScript values held by a card\<close>

text \<open>
  The scheduler reads three numeric fields of a card object. A field written by the
  application is a number; a field of a legacy or imported record may be absent
  (\<open>undefined\<close>), \<open>null\<close> or \<open>NaN\<close>. Numbers are kept as exact rationals: the
  model computes with the mathematical value of every decimal constant of the source
  (\<open>1.3\<close> is \<open>13/10\<close>) and does not round results to IEEE doubles. Strings,
  booleans, objects and infinities in these fields are outside the model.
\<close>

datatype jsval = JUndefined | JNull | JNaN | JNum rat

text \<open>\<open>x || d\<close> on such a value: \<open>undefined\<close>, \<open>null\<close>, \<open>NaN\<close> and \<open>0\<close> are falsy.\<close>

fun js_or :: "jsval \<Rightarrow> rat \<Rightarrow> rat" where
  "js_or (JNum r) d = (if r = 0 then d else r)"
| "js_or JUndefined d = d"
| "js_or JNull d = d"
| "js_or JNaN d = d"

text \<open>\<open>Math.round\<close>: the nearest integer, a tie going towards plus infinity.\<close>

definition math_round :: "rat \<Rightarrow> rat" where
  "math_round x = of_int \<lfloor>x + 1 / 2\<rfloor>"

text \<open>
  A date-valued field holds an ISO string produced by \<open>toISOString\<close>, kept here as its
  epoch milliseconds (\<open>new Date(s)\<close> reads back exactly the instant that
  \<open>toISOString\<close> wrote), or is absent, \<open>null\<close>, or a non-empty string that does not
  parse as a date.
\<close>

datatype jsdate = DateUndefined | DateNull | DateInvalid | DateMs int

fun date_truthy :: "jsdate \<Rightarrow> bool" where
  "date_truthy (DateMs t) = True"
| "date_truthy DateInvalid = True"
| "date_truthy DateUndefined = False"
| "date_truthy DateNull = False"

text \<open>\<open>new Date(v)\<close>: \<open>None\<close> is the Invalid Date; \<open>new Date(null)\<close> is the epoch.\<close>

fun new_Date :: "jsdate \<Rightarrow> int option" where
  "new_Date (DateMs t) = Some t"
| "new_Date DateNull = Some 0"
| "new_Date DateUndefined = None"
| "new_Date DateInvalid = None"

text \<open>Truthiness of a string-valued field that may be absent: the empty string is falsy.\<close>

fun str_truthy :: "string option \<Rightarrow> bool" where
  "str_truthy None = False"
| "str_truthy (Some s) = (s \<noteq> [])"

text \<open>\<open>x || d\<close> on such a field.\<close>

fun str_or :: "string option \<Rightarrow> string \<Rightarrow> string" where
  "str_or None d = d"
| "str_or (Some s) d = (if s = [] then d else s)"

section \<open>The card record\<close>

record card =
  card_id :: string
  word :: string
  scopeType :: "string option"
  scopeId :: string
  scopeKey :: "string option"
  createdAt :: jsdate
  dueDate :: jsdate
  repetitions :: jsval
  interval :: jsval
  easeFactor :: jsval
  lastReviewed :: jsdate
  status :: "string option"
  chatId :: "string option"
  migratedFromLegacy :: bool

section \<open>The SM-2 scheduler\<close>

datatype js_error = TypeError

record sm2_result =
  newRepetitions :: rat
  newInterval :: rat
  newEaseFactor :: rat

text \<open>
  \<open>calculateSM2(card, quality)\<close>. Destructuring \<open>null\<close> or \<open>undefined\<close> throws a
  TypeError, which is the only way the function can fail; \<open>None\<close> stands for such an
  argument. The branches are those of the source, in its order, including the
  \<open>quality === 2\<close> tests inside the branch taken when \<open>quality < 3\<close> is false.
\<close>

definition calculateSM2 :: "card option \<Rightarrow> rat \<Rightarrow> js_error + sm2_result" where
  "calculateSM2 cardArg quality =
     (case cardArg of
        None \<Rightarrow> Inl TypeError
      | Some c \<Rightarrow>
          let reps = js_or (repetitions c) 0;
              ivl = js_or (interval c) 0;
              ef = js_or (easeFactor c) (5 / 2)
          in if quality < 3 then
               Inr \<lparr> newRepetitions = 0,
                     newInterval = (if reps = 0 then 0 else 1),
                     newEaseFactor = max (13 / 10) (ef - 2 / 10) \<rparr>
             else
               let nef = max (13 / 10)
                     (ef + (1 / 10 - (5 - quality) * (8 / 100 + (5 - quality) * (2 / 100))))
               in if reps = 0 then
                    (if quality = 5 then
                       Inr \<lparr> newRepetitions = 2, newInterval = 4, newEaseFactor = nef \<rparr>
                     else if quality = 2 then
                       Inr \<lparr> newRepetitions = 0, newInterval = 0, newEaseFactor = nef \<rparr>
                     else
                       Inr \<lparr> newRepetitions = 1, newInterval = 1, newEaseFactor = nef \<rparr>)
                  else if reps = 1 then
                    Inr \<lparr> newRepetitions = 2,
                          newInterval =
                            (if quality = 5 then math_round (ivl * nef * (13 / 10))
                             else if quality = 2 then max 2 (math_round (ivl * (12 / 10)))
                             else 6),
                          newEaseFactor = nef \<rparr>
                  else
                    Inr \<lparr> newRepetitions = reps + 1,
                          newInterval =
                            (if quality = 5 then math_round (ivl * nef * (13 / 10))
                             else if quality = 2 then
                               max (math_round (ivl * (12 / 10))) (ivl + 1)
                             else math_round (ivl * nef)),
                          newEaseFactor = nef \<rparr>)"

section \<open>Time\<close>

text \<open>
  An instant is its epoch milliseconds. The local time zone is a fixed offset \<open>tz\<close> (in
  milliseconds) from UTC, so a local calendar day is \<open>msPerDay\<close> milliseconds long; a
  change of offset during the period (daylight saving) is outside the model.
\<close>

definition msPerDay :: int where
  "msPerDay = 24 * 60 * 60 * 1000"

text \<open>\<open>d.setHours(0, 0, 0, 0)\<close>: the local midnight at or before \<open>t\<close>.\<close>

definition setHoursMidnight :: "int \<Rightarrow> int \<Rightarrow> int" where
  "setHoursMidnight tz t = t - (t + tz) mod msPerDay"

text \<open>
  \<open>d.setDate(d.getDate() + n)\<close> moves \<open>d\<close> by the integer part of \<open>n\<close> days; every
  interval that \<open>calculateSM2\<close> returns is an integer (lemma \<open>newInterval_integral\<close>).
\<close>

definition setDatePlus :: "int \<Rightarrow> rat \<Rightarrow> int" where
  "setDatePlus t n = t + \<lfloor>n\<rfloor> * msPerDay"

section \<open>Scopes and card identity\<close>

record scope =
  scope_type :: "string option"
  scope_id :: "string option"

definition getScopeKey :: "scope option \<Rightarrow> string" where
  "getScopeKey sc =
     (case sc of
        None \<Rightarrow> ''global:all''
      | Some s \<Rightarrow>
          (case scope_type s of
             None \<Rightarrow> ''global:all''
           | Some ty \<Rightarrow>
               if ty = [] then ''global:all''
               else if ty = ''global'' then ''global:all''
               else ty @ '':'' @
                 str_or (scope_id s) ''all''))"

text \<open>
  \<open>normalizeWord\<close>: \<open>trim\<close> then \<open>toLowerCase\<close>, on strings of 8-bit characters:
  the white space removed is the ASCII white space and only \<open>A\<close> to \<open>Z\<close> change case.
\<close>

definition is_space :: "char \<Rightarrow> bool" where
  "is_space c = (of_char c \<in> {9, 10, 11, 12, 13, 32 :: nat})"

definition trim :: "string \<Rightarrow> string" where
  "trim s = rev (dropWhile is_space (rev (dropWhile is_space s)))"

definition lower_char :: "char \<Rightarrow> char" where
  "lower_char c =
     (case map_of (zip ''ABCDEFGHIJKLMNOPQRSTUVWXYZ'' ''abcdefghijklmnopqrstuvwxyz'') c of
        None \<Rightarrow> c
      | Some l \<Rightarrow> l)"

definition toLowerCase :: "string \<Rightarrow> string" where
  "toLowerCase s = map lower_char s"

definition normalizeWord :: "string \<Rightarrow> string" where
  "normalizeWord w = toLowerCase (trim w)"

definition getLeitnerCardId :: "string \<Rightarrow> scope option \<Rightarrow> string" where
  "getLeitnerCardId w sc = getScopeKey sc @ '':'' @ normalizeWord w"

definition getGlobalScope :: scope where
  "getGlobalScope = \<lparr> scope_type = Some ''global'', scope_id = Some ''all'' \<rparr>"

section \<open>The card store\<close>

text \<open>
  The object store \<open>leitner_cards_v2\<close> has key path \<open>id\<close>: it holds at most one record
  per id, \<open>put\<close> replaces the record with the same id or adds a new one. The store is the
  list of its records; the order of \<open>getAll\<close> is not used by any property below.
  Requests on the store are taken to succeed.
\<close>

definition db_get :: "card list \<Rightarrow> string \<Rightarrow> card option" where
  "db_get cards key = find (\<lambda>c. card_id c = key) cards"

fun db_set :: "card list \<Rightarrow> card \<Rightarrow> card list" where
  "db_set [] c = [c]"
| "db_set (x # xs) c = (if card_id x = card_id c then c # xs else x # db_set xs c)"

definition db_getAll :: "card list \<Rightarrow> card list" where
  "db_getAll cards = cards"

section \<open>Application state\<close>

text \<open>
  The fields of \<open>AIChatApp\<close> that the flashcard functions read or write.
  \<open>leitnerFinishedScreen\<close> is true when the finished screen is shown (its \<open>hidden\<close>
  class removed). The due-state cache, a derived display aid, is left out.
\<close>

record app =
  db :: "card list"
  activeSidebarSection :: string
  currentChatId :: "string option"
  currentDocumentId :: "string option"
  leitnerQueue :: "card list"
  currentCard :: "card option"
  currentLeitnerScope :: "scope option"
  leitnerStatsNew :: nat
  leitnerStatsDue :: nat
  leitnerFinishedScreen :: bool

definition getChatScope :: "app \<Rightarrow> string option \<Rightarrow> scope" where
  "getChatScope a chatIdArg =
     (let i = (if str_truthy chatIdArg then chatIdArg else currentChatId a)
      in if str_truthy i then \<lparr> scope_type = Some ''chat'', scope_id = i \<rparr>
         else \<lparr> scope_type = Some ''global'', scope_id = None \<rparr>)"

definition getDocumentScope :: "app \<Rightarrow> string option \<Rightarrow> scope" where
  "getDocumentScope a documentIdArg =
     (let i = (if str_truthy documentIdArg then documentIdArg else currentDocumentId a)
      in if str_truthy i then \<lparr> scope_type = Some ''document'', scope_id = i \<rparr>
         else \<lparr> scope_type = Some ''global'', scope_id = None \<rparr>)"

definition getActiveScope :: "app \<Rightarrow> bool \<Rightarrow> scope option" where
  "getActiveScope a includeGlobalFallback =
     (if activeSidebarSection a = ''documents'' \<and> str_truthy (currentDocumentId a)
      then Some (getDocumentScope a None)
      else if str_truthy (currentChatId a) then Some (getChatScope a None)
      else if includeGlobalFallback then Some getGlobalScope else None)"

section \<open>The due-state classifier\<close>

datatype due_state = StateNone | StateNew | StateScheduled | StateDue | StateOverdue

text \<open>
  \<open>evaluateCardDueState(card)\<close>, with the value of \<open>new Date()\<close> as the argument
  \<open>now\<close>; the result is the \<open>state\<close> field of the object returned. A comparison with
  the Invalid Date is false.
\<close>

definition evaluateCardDueState :: "int \<Rightarrow> card option \<Rightarrow> due_state" where
  "evaluateCardDueState now cardArg =
     (case cardArg of
        None \<Rightarrow> StateNone
      | Some c \<Rightarrow>
          let due = (if date_truthy (dueDate c) then new_Date (dueDate c) else Some now);
              isDue = (case due of None \<Rightarrow> False | Some d \<Rightarrow> d \<le> now);
              overdue = (isDue \<and>
                (case due of None \<Rightarrow> False | Some d \<Rightarrow> now - d > 24 * 60 * 60 * 1000))
          in if isDue then (if overdue then StateOverdue else StateDue)
             else (if repetitions c = JNum 0 then StateNew else StateScheduled))"

section \<open>Adding a word\<close>

datatype toast = ToastEmptyWord | ToastSelectScope | ToastAlreadyInDeck | ToastAdded

text \<open>The object \<open>newCard\<close> that \<open>addCurrentWordToLeitner\<close> stores.\<close>

definition newCard :: "int \<Rightarrow> string \<Rightarrow> scope \<Rightarrow> card" where
  "newCard now normalizedWord targetScope =
     \<lparr> card_id = getLeitnerCardId normalizedWord (Some targetScope),
       word = normalizedWord,
       scopeType = scope_type targetScope,
       scopeId = str_or (scope_id targetScope) ''all'',
       scopeKey = Some (getScopeKey (Some targetScope)),
       createdAt = DateMs now,
       dueDate = DateMs now,
       repetitions = JNum 0,
       interval = JNum 0,
       easeFactor = JNum (5 / 2),
       lastReviewed = DateNull,
       status = Some ''new'',
       chatId = None,
       migratedFromLegacy = False \<rparr>"

text \<open>
  \<open>addCurrentWordToLeitner(word, scope)\<close> at the instant \<open>now\<close>: the new state and
  the toast shown. Speech playback is an external collaborator and is not modelled.
\<close>

definition addCurrentWordToLeitner ::
    "int \<Rightarrow> app \<Rightarrow> string \<Rightarrow> scope option \<Rightarrow> app \<times> toast" where
  "addCurrentWordToLeitner now a w scopeArg =
     (let normalizedWord = normalizeWord w
      in if normalizedWord = [] then (a, ToastEmptyWord)
         else
           (case (case scopeArg of Some s \<Rightarrow> Some s | None \<Rightarrow> getActiveScope a True) of
              None \<Rightarrow> (a, ToastSelectScope)
            | Some targetScope \<Rightarrow>
                (case db_get (db a) (getLeitnerCardId normalizedWord (Some targetScope)) of
                   Some existingCard \<Rightarrow> (a, ToastAlreadyInDeck)
                 | None \<Rightarrow>
                     (a\<lparr> db := db_set (db a) (newCard now normalizedWord targetScope) \<rparr>,
                      ToastAdded))))"

section \<open>The review session\<close>

text \<open>The filter of \<open>openLeitnerModal\<close> that selects \<open>cardsToReview\<close>.\<close>

definition cardToReview :: "int \<Rightarrow> int \<Rightarrow> string \<Rightarrow> bool \<Rightarrow> card \<Rightarrow> bool" where
  "cardToReview tz now key includeGlobal c =
     (if \<not> str_truthy (scopeKey c) then False
      else if scopeKey c \<noteq> Some key \<and> (\<not> includeGlobal \<or> scopeKey c \<noteq> Some ''global:all'')
      then False
      else (case new_Date (dueDate c) of
              None \<Rightarrow> False
            | Some d \<Rightarrow> setHoursMidnight tz d \<le> setHoursMidnight tz now))"

text \<open>The scope that \<open>openLeitnerModal(chatId, scopeOverride)\<close> reviews.\<close>

definition openLeitnerScope :: "app \<Rightarrow> string option \<Rightarrow> scope option \<Rightarrow> scope option" where
  "openLeitnerScope a chatIdArg scopeOverride =
     (case scopeOverride of
        Some s \<Rightarrow> Some s
      | None \<Rightarrow> if str_truthy chatIdArg then Some (getChatScope a chatIdArg)
                else getActiveScope a True)"

text \<open>
  The source shuffles the selected cards with \<open>sort(() => Math.random() - 0.5)\<close>,
  which leaves some permutation of them, decided by the random draws. Here the draws
  are a list of numbers, each picking the next card among those that remain; every
  permutation arises from some draws (lemma \<open>shuffleBy_any_permutation\<close>).
\<close>

fun shuffleBy :: "nat list \<Rightarrow> 'a list \<Rightarrow> 'a list" where
  "shuffleBy rs [] = []"
| "shuffleBy [] (x # xs) = x # xs"
| "shuffleBy (r # rs) (x # xs) =
     (let i = r mod length (x # xs)
      in (x # xs) ! i # shuffleBy rs (take i (x # xs) @ drop (Suc i) (x # xs)))"

text \<open>The queue that \<open>openLeitnerModal\<close> assigns to \<open>this.leitnerQueue\<close>.\<close>

definition openLeitnerQueue ::
    "nat list \<Rightarrow> int \<Rightarrow> int \<Rightarrow> app \<Rightarrow> string option \<Rightarrow> scope option \<Rightarrow> card list" where
  "openLeitnerQueue rs tz now a chatIdArg scopeOverride =
     (let key = getScopeKey (openLeitnerScope a chatIdArg scopeOverride);
          includeGlobal = (key \<noteq> ''global:all'')
      in shuffleBy rs (filter (cardToReview tz now key includeGlobal) (db_getAll (db a))))"

definition showFinishedScreen :: "app \<Rightarrow> app" where
  "showFinishedScreen a = a\<lparr> leitnerFinishedScreen := True \<rparr>"

definition showNextCard :: "app \<Rightarrow> app" where
  "showNextCard a =
     (case leitnerQueue a of
        [] \<Rightarrow> showFinishedScreen a
      | c # rest \<Rightarrow> a\<lparr> currentCard := Some c, leitnerQueue := rest \<rparr>)"

text \<open>\<open>c.repetitions > 0\<close>: \<open>null\<close> converts to 0, \<open>undefined\<close> and \<open>NaN\<close> compare false.\<close>

fun js_positive :: "jsval \<Rightarrow> bool" where
  "js_positive (JNum r) = (0 < r)"
| "js_positive JUndefined = False"
| "js_positive JNull = False"
| "js_positive JNaN = False"

definition openLeitnerModal ::
    "nat list \<Rightarrow> int \<Rightarrow> int \<Rightarrow> app \<Rightarrow> string option \<Rightarrow> scope option \<Rightarrow> app" where
  "openLeitnerModal rs tz now a chatIdArg scopeOverride =
     (let q = openLeitnerQueue rs tz now a chatIdArg scopeOverride;
          a1 = a\<lparr> leitnerFinishedScreen := False,
                  currentLeitnerScope := openLeitnerScope a chatIdArg scopeOverride,
                  leitnerQueue := q,
                  leitnerStatsNew := length (filter (\<lambda>c. repetitions c = JNum 0) q),
                  leitnerStatsDue := length (filter (\<lambda>c. js_positive (repetitions c)) q) \<rparr>
      in if length q > 0 then showNextCard a1 else showFinishedScreen a1)"

section \<open>Rating a card\<close>

text \<open>The four rating buttons call \<open>rateCard\<close> with 1, 2, 3 and 4.\<close>

datatype rating = Again | Hard | Good | Easy

fun qualityMap :: "rating \<Rightarrow> rat" where
  "qualityMap Again = 0"
| "qualityMap Hard = 2"
| "qualityMap Good = 3"
| "qualityMap Easy = 5"

text \<open>The object \<open>updatedCard\<close> that \<open>rateCard\<close> builds from the card and the result.\<close>

definition updatedCard :: "int \<Rightarrow> int \<Rightarrow> card \<Rightarrow> sm2_result \<Rightarrow> card" where
  "updatedCard tz now c r =
     c\<lparr> repetitions := JNum (newRepetitions r),
        interval := JNum (newInterval r),
        easeFactor := JNum (newEaseFactor r),
        dueDate := DateMs (setDatePlus (setHoursMidnight tz now) (newInterval r)),
        lastReviewed := DateMs now,
        status := Some (if newRepetitions r = 0 then ''learning''
                        else if newRepetitions r < 2 then ''learning''
                        else ''review'') \<rparr>"

definition rateCard :: "int \<Rightarrow> int \<Rightarrow> app \<Rightarrow> rating \<Rightarrow> app" where
  "rateCard tz now a rt =
     (case currentCard a of
        None \<Rightarrow> a
      | Some c \<Rightarrow>
          (case calculateSM2 (Some c) (qualityMap rt) of
             Inl e \<Rightarrow> a
           | Inr sm2Result \<Rightarrow>
               showNextCard (a\<lparr> db := db_set (db a) (updatedCard tz now c sm2Result) \<rparr>)))"

text \<open>A card rated again and again with the given qualities, each at its own instant.\<close>

fun rateRepeatedly :: "int \<Rightarrow> card \<Rightarrow> (int \<times> rat) list \<Rightarrow> card" where
  "rateRepeatedly tz c [] = c"
| "rateRepeatedly tz c ((now, q) # rest) =
     (case calculateSM2 (Some c) q of
        Inl e \<Rightarrow> c
      | Inr r \<Rightarrow> rateRepeatedly tz (updatedCard tz now c r) rest)"

section \<open>Migration of the legacy store\<close>

text \<open>
  A record of the legacy store \<open>leitner_cards\<close>. The migration copies every field of
  it into the migrated record (\<open>...value\<close>).
\<close>

record legacy_card =
  legacy_word :: "string option"
  legacy_chatId :: "string option"
  legacy_createdAt :: jsdate
  legacy_dueDate :: jsdate
  legacy_repetitions :: jsval
  legacy_interval :: jsval
  legacy_easeFactor :: jsval
  legacy_lastReviewed :: jsdate
  legacy_status :: "string option"

text \<open>The object \<open>migrated\<close> built for a legacy record whose \<open>word\<close> is \<open>w\<close>.\<close>

definition migrated :: "int \<Rightarrow> legacy_card \<Rightarrow> string \<Rightarrow> card" where
  "migrated now v w =
     (let sType = (if str_truthy (legacy_chatId v) then ''chat'' else ''global'');
          sId = str_or (legacy_chatId v) ''all'';
          key = sType @ '':'' @ sId
      in \<lparr> card_id = key @ '':'' @ w,
           word = w,
           scopeType = Some sType,
           scopeId = sId,
           scopeKey = Some key,
           createdAt = (if date_truthy (legacy_createdAt v) then legacy_createdAt v
                        else DateMs now),
           dueDate = legacy_dueDate v,
           repetitions = legacy_repetitions v,
           interval = legacy_interval v,
           easeFactor = legacy_easeFactor v,
           lastReviewed = legacy_lastReviewed v,
           status = legacy_status v,
           chatId = legacy_chatId v,
           migratedFromLegacy = True \<rparr>)"

text \<open>
  The cursor loop of the upgrade handler in \<open>CacheDB.init\<close>, over the legacy records in
  cursor order, writing into the new store: a record without a truthy \<open>word\<close> is
  passed over, the legacy store itself is not written.
\<close>

fun migrateLegacy :: "int \<Rightarrow> legacy_card list \<Rightarrow> card list \<Rightarrow> card list" where
  "migrateLegacy now [] newStore = newStore"
| "migrateLegacy now (v # rest) newStore =
     (case legacy_word v of
        None \<Rightarrow> migrateLegacy now rest newStore
      | Some w \<Rightarrow>
          if w = [] then migrateLegacy now rest newStore
          else migrateLegacy now rest (db_set newStore (migrated now v w)))"

section \<open>Sample data\<close>

text \<open>A graduated card of chat 1, used to instantiate the theorems below.\<close>

definition sampleCard :: card where
  "sampleCard =
     \<lparr> card_id = ''chat:1:apple'', word = ''apple'', scopeType = Some ''chat'',
       scopeId = ''1'', scopeKey = Some ''chat:1'', createdAt = DateMs 0,
       dueDate = DateMs 0, repetitions = JNum 1, interval = JNum 1,
       easeFactor = JNum (5 / 2), lastReviewed = DateNull, status = Some ''learning'',
       chatId = None, migratedFromLegacy = False \<rparr>"

text \<open>An application state with an empty card store, chat 1 being open.\<close>

definition sampleApp :: app where
  "sampleApp =
     \<lparr> db = [], activeSidebarSection = ''chat'', currentChatId = Some ''1'',
       currentDocumentId = None, leitnerQueue = [], currentCard = None,
       currentLeitnerScope = Some getGlobalScope, leitnerStatsNew = 0,
       leitnerStatsDue = 0, leitnerFinishedScreen = False \<rparr>"

text \<open>
  The state with the sample card and a card for \<open>run\<close> added under the global scope
  at instant 0 in the store.
\<close>

definition sampleDeckApp :: app where
  "sampleDeckApp = sampleApp\<lparr> db := [sampleCard, newCard 0 ''run'' getGlobalScope] \<rparr>"

definition chatScope :: "string \<Rightarrow> scope" where
  "chatScope i = \<lparr> scope_type = Some ''chat'', scope_id = Some i \<rparr>"

definition documentScope :: "string \<Rightarrow> scope" where
  "documentScope i = \<lparr> scope_type = Some ''document'', scope_id = Some i \<rparr>"

text \<open>
  Two legacy records: a card of chat 1 without a creation date, and a record without a
  word.
\<close>

definition sampleLegacy :: legacy_card where
  "sampleLegacy =
     \<lparr> legacy_word = Some ''apple'', legacy_chatId = Some ''1'',
       legacy_createdAt = DateUndefined, legacy_dueDate = DateMs 0,
       legacy_repetitions = JUndefined, legacy_interval = JNum (1 / 2),
       legacy_easeFactor = JNum (5 / 2), legacy_lastReviewed = DateUndefined,
       legacy_status = Some ''review'' \<rparr>"

definition sampleLegacyNoWord :: legacy_card where
  "sampleLegacyNoWord = sampleLegacy\<lparr> legacy_word := None \<rparr>"

section \<open>The ids that the migration writes\<close>

fun migratedIds :: "legacy_card list \<Rightarrow> string list" where
  "migratedIds [] = []"
| "migratedIds (v # rest) =
     (case legacy_word v of
        None \<Rightarrow> migratedIds rest
      | Some w \<Rightarrow> if w = [] then migratedIds rest
                  else card_id (migrated 0 v w) # migratedIds rest)"

section \<open>The classifier as the specification words it\<close>

text \<open>
  The specification's \<open>classify(card, now)\<close> for a card due at the instant \<open>d\<close>: the
  test for being due compares \<open>d\<close> and \<open>now\<close> truncated to the local day; a card that
  is not due is new when its repetitions are 0 and scheduled otherwise, a card that is
  due is overdue when \<open>now - d\<close> exceeds 24 hours and due otherwise.
\<close>

definition classifyByDay :: "int \<Rightarrow> int \<Rightarrow> int \<Rightarrow> jsval \<Rightarrow> due_state" where
  "classifyByDay tz now d reps =
     (if setHoursMidnight tz d \<le> setHoursMidnight tz now
      then (if now - d > 24 * 60 * 60 * 1000 then StateOverdue else StateDue)
      else (if reps = JNum 0 then StateNew else StateScheduled))"

section \<open>Properties of the scheduler\<close>

lemma db_get_db_set_same: "db_get (db_set s c) (card_id c) = Some c"
  by (induction s) (simp_all add: db_get_def)

lemma math_round_integral: "math_round x \<in> \<int>"
  by (simp add: math_round_def)

lemma newInterval_integral:
  "calculateSM2 (Some c) q = Inr r \<Longrightarrow> newInterval r \<in> \<int>"
  by (auto simp: calculateSM2_def Let_def math_round_integral split: if_splits)

lemma calculateSM2_easy_new:
  "calculateSM2 (Some (c\<lparr>repetitions := JNum 0, interval := JNum 0,
      easeFactor := JNum (5 / 2)\<rparr>)) 5
     = Inr \<lparr> newRepetitions = 2, newInterval = 4, newEaseFactor = 13 / 5 \<rparr>"
  by (simp add: calculateSM2_def)

lemma rateCard_easy_new_status:
  "map_option status (db_get (db (rateCard tz now
      (a\<lparr>currentCard := Some (c\<lparr>repetitions := JNum 0, interval := JNum 0,
          easeFactor := JNum (5 / 2)\<rparr>)\<rparr>) Easy)) (card_id c))
     = Some (Some ''review'')"
  using db_get_db_set_same [of "db a"
      "updatedCard tz now (c\<lparr>repetitions := JNum 0, interval := JNum 0,
          easeFactor := JNum (5 / 2)\<rparr>)
        \<lparr> newRepetitions = 2, newInterval = 4, newEaseFactor = 13 / 5 \<rparr>"]
  by (simp add: rateCard_def calculateSM2_easy_new showNextCard_def
      showFinishedScreen_def updatedCard_def split: list.splits)

text \<open>
  Claim C1. The table tests of the specification hold for any card object carrying the
  stated fields: a new card (repetitions 0, interval 0, ease factor 2.5) rated with
  quality 5 gets repetitions 2 and interval 4, and \<open>rateCard\<close> with the Easy button
  stores it with status \<open>review\<close>; a card with repetitions 0 rated with quality 3 gets
  repetitions 1 and interval 1; a card with repetitions 2, interval 6 and ease factor
  2.5 rated with quality 0 gets repetitions 0, interval 1 and ease factor 2.3.
\<close>

theorem sm2_table_tests:
  "calculateSM2 (Some (c\<lparr>repetitions := JNum 0, interval := JNum 0,
      easeFactor := JNum (5 / 2)\<rparr>)) 5
     = Inr \<lparr> newRepetitions = 2, newInterval = 4, newEaseFactor = 13 / 5 \<rparr>
   \<and> map_option status (db_get (db (rateCard tz now
        (a\<lparr>currentCard := Some (c\<lparr>repetitions := JNum 0, interval := JNum 0,
            easeFactor := JNum (5 / 2)\<rparr>)\<rparr>) Easy)) (card_id c))
     = Some (Some ''review'')
   \<and> (\<exists>ef. calculateSM2 (Some (c\<lparr>repetitions := JNum 0\<rparr>)) 3
          = Inr \<lparr> newRepetitions = 1, newInterval = 1, newEaseFactor = ef \<rparr>)
   \<and> calculateSM2 (Some (c\<lparr>repetitions := JNum 2, interval := JNum 6,
        easeFactor := JNum (5 / 2)\<rparr>)) 0
     = Inr \<lparr> newRepetitions = 0, newInterval = 1, newEaseFactor = 23 / 10 \<rparr>"
proof (intro conjI)
  show "calculateSM2 (Some (c\<lparr>repetitions := JNum 0, interval := JNum 0,
      easeFactor := JNum (5 / 2)\<rparr>)) 5
     = Inr \<lparr> newRepetitions = 2, newInterval = 4, newEaseFactor = 13 / 5 \<rparr>"
    by (rule calculateSM2_easy_new)
  show "map_option status (db_get (db (rateCard tz now
        (a\<lparr>currentCard := Some (c\<lparr>repetitions := JNum 0, interval := JNum 0,
            easeFactor := JNum (5 / 2)\<rparr>)\<rparr>) Easy)) (card_id c))
     = Some (Some ''review'')"
    by (rule rateCard_easy_new_status)
  show "\<exists>ef. calculateSM2 (Some (c\<lparr>repetitions := JNum 0\<rparr>)) 3
          = Inr \<lparr> newRepetitions = 1, newInterval = 1, newEaseFactor = ef \<rparr>"
    by (simp add: calculateSM2_def Let_def)
  show "calculateSM2 (Some (c\<lparr>repetitions := JNum 2, interval := JNum 6,
        easeFactor := JNum (5 / 2)\<rparr>)) 0
     = Inr \<lparr> newRepetitions = 0, newInterval = 1, newEaseFactor = 23 / 10 \<rparr>"
    by (simp add: calculateSM2_def)
qed

text \<open>
  Claim C2. The claim says that the Hard rating (quality 2) on a graduated card is a
  success that lengthens the interval. In the code quality 2 takes the branch
  \<open>quality < 3\<close>: the sample card (repetitions 1, interval 1, ease factor 2.5) rated
  Hard comes back with repetitions 0 and interval 1, not repetitions 2 and interval
  \<open>max(2, round(1 * 1.2)) = 2\<close>; the same card with repetitions 2 and interval 10
  comes back with repetitions 0 and interval 1, not repetitions 3 and interval 12.
\<close>

theorem hard_rating_takes_failure_branch:
  "calculateSM2 (Some sampleCard) (qualityMap Hard)
     = Inr \<lparr> newRepetitions = 0, newInterval = 1, newEaseFactor = 23 / 10 \<rparr>
   \<and> calculateSM2 (Some (sampleCard\<lparr>repetitions := JNum 2, interval := JNum 10\<rparr>))
        (qualityMap Hard)
     = Inr \<lparr> newRepetitions = 0, newInterval = 1, newEaseFactor = 23 / 10 \<rparr>"
  by (simp add: calculateSM2_def sampleCard_def)

text \<open>
  Claim C3. For every card and every quality below 3 the result has repetitions 0,
  interval 0 when the card's repetitions (0 when absent or falsy) are 0 and interval 1
  otherwise, and ease factor \<open>max(1.3, easeFactor - 0.2)\<close> (with 2.5 for an absent or
  falsy ease factor). In particular, for a card whose repetitions are the number \<open>r\<close>
  and whose ease factor is the non-zero number \<open>e\<close>, the interval is 0 if \<open>r = 0\<close> and
  1 otherwise and the ease factor is \<open>max(1.3, e - 0.2)\<close>.
\<close>

theorem failure_rule:
  assumes "quality < 3"
  shows "calculateSM2 (Some c) quality =
           Inr \<lparr> newRepetitions = 0,
                 newInterval = (if js_or (repetitions c) 0 = 0 then 0 else 1),
                 newEaseFactor = max (13 / 10) (js_or (easeFactor c) (5 / 2) - 2 / 10) \<rparr>
         \<and> (\<forall>r e. repetitions c = JNum r \<and> easeFactor c = JNum e \<and> e \<noteq> 0 \<longrightarrow>
               calculateSM2 (Some c) quality =
                 Inr \<lparr> newRepetitions = 0,
                       newInterval = (if r = 0 then 0 else 1),
                       newEaseFactor = max (13 / 10) (e - 2 / 10) \<rparr>)"
  using assms by (simp add: calculateSM2_def Let_def)

theorem failure_rule_witness:
  "(2 :: rat) < 3 \<and> repetitions sampleCard = JNum 1 \<and> easeFactor sampleCard = JNum (5 / 2)
   \<and> (5 / 2 :: rat) \<noteq> 0
   \<and> calculateSM2 (Some sampleCard) 2 =
       Inr \<lparr> newRepetitions = 0, newInterval = 1, newEaseFactor = 23 / 10 \<rparr>"
proof -
  have h: "(2 :: rat) < 3" by simp
  have f: "repetitions sampleCard = JNum 1 \<and> easeFactor sampleCard = JNum (5 / 2)
      \<and> (5 / 2 :: rat) \<noteq> 0"
    by (simp add: sampleCard_def)
  from failure_rule [OF h, of sampleCard] f
  have "calculateSM2 (Some sampleCard) 2 =
      Inr \<lparr> newRepetitions = 0, newInterval = (if (1 :: rat) = 0 then 0 else 1),
            newEaseFactor = max (13 / 10) (5 / 2 - 2 / 10) \<rparr>"
    by blast
  with h f show ?thesis by simp
qed

lemma calculateSM2_floor:
  "\<exists>r. calculateSM2 (Some c) quality = Inr r \<and> 13 / 10 \<le> newEaseFactor r"
  by (simp add: calculateSM2_def Let_def max_def)

lemma rateRepeatedly_floor:
  "easeFactor c = JNum e \<Longrightarrow> 13 / 10 \<le> e \<Longrightarrow>
     \<exists>e'. easeFactor (rateRepeatedly tz c qs) = JNum e' \<and> 13 / 10 \<le> e'"
proof (induction qs arbitrary: c e)
  case Nil
  then show ?case by simp
next
  case (Cons p qs)
  obtain now q where p: "p = (now, q)" by (cases p)
  obtain r where r: "calculateSM2 (Some c) q = Inr r" "13 / 10 \<le> newEaseFactor r"
    using calculateSM2_floor by blast
  have "easeFactor (updatedCard tz now c r) = JNum (newEaseFactor r)"
    by (simp add: updatedCard_def)
  from Cons.IH [OF this r(2)] show ?case by (simp add: p r(1))
qed

text \<open>
  Claim C4. The ease factor that \<open>calculateSM2\<close> returns is at least 1.3, for every
  card and every quality (so in particular for a card whose ease factor is at least 1.3
  and a quality among 0, 2, 3 and 5); hence a card whose ease factor is at least 1.3
  keeps an ease factor of at least 1.3 through any sequence of ratings.
\<close>

theorem easeFactor_floor:
  "(\<exists>r. calculateSM2 (Some c) quality = Inr r \<and> 13 / 10 \<le> newEaseFactor r)
   \<and> (easeFactor c = JNum e \<and> 13 / 10 \<le> e \<longrightarrow>
        (\<exists>e'. easeFactor (rateRepeatedly tz c qs) = JNum e' \<and> 13 / 10 \<le> e'))"
  using calculateSM2_floor rateRepeatedly_floor by blast

theorem easeFactor_floor_witness:
  "easeFactor sampleCard = JNum (5 / 2) \<and> (13 / 10 :: rat) \<le> 5 / 2
   \<and> (\<exists>e'. easeFactor (rateRepeatedly 0 sampleCard [(0, 0), (msPerDay, 0), (2 * msPerDay, 5)])
          = JNum e' \<and> 13 / 10 \<le> e')"
proof -
  have f: "easeFactor sampleCard = JNum (5 / 2) \<and> (13 / 10 :: rat) \<le> 5 / 2"
    by (simp add: sampleCard_def)
  with easeFactor_floor [of sampleCard 0 "5 / 2" 0
      "[(0, 0), (msPerDay, 0), (2 * msPerDay, 5)]"]
  show ?thesis by blast
qed

lemma js_or_idem: "js_or (JNum (js_or v d)) d = js_or v d"
  by (cases v) auto

text \<open>
  Claim C10. \<open>calculateSM2\<close> returns a result for every card record and every quality,
  and the result is the one it returns for the record in which repetitions, interval
  and ease factor have been replaced by their defaulted values (0, 0 and 2.5 for an
  absent or falsy field); a record whose ease factor is 0, \<open>null\<close> or \<open>undefined\<close> is
  scheduled exactly as the record with ease factor 2.5.
\<close>

theorem calculateSM2_total_with_defaults:
  "(\<exists>r. calculateSM2 (Some c) quality = Inr r)
   \<and> calculateSM2 (Some c) quality =
       calculateSM2 (Some (c\<lparr>repetitions := JNum (js_or (repetitions c) 0),
          interval := JNum (js_or (interval c) 0),
          easeFactor := JNum (js_or (easeFactor c) (5 / 2))\<rparr>)) quality
   \<and> js_or JUndefined 0 = 0 \<and> js_or JNull 0 = 0 \<and> js_or JNaN 0 = 0 \<and> js_or (JNum 0) 0 = 0
   \<and> calculateSM2 (Some (c\<lparr>easeFactor := JNum 0\<rparr>)) quality =
       calculateSM2 (Some (c\<lparr>easeFactor := JNum (5 / 2)\<rparr>)) quality
   \<and> calculateSM2 (Some (c\<lparr>easeFactor := JNull\<rparr>)) quality =
       calculateSM2 (Some (c\<lparr>easeFactor := JNum (5 / 2)\<rparr>)) quality
   \<and> calculateSM2 (Some (c\<lparr>easeFactor := JUndefined\<rparr>)) quality =
       calculateSM2 (Some (c\<lparr>easeFactor := JNum (5 / 2)\<rparr>)) quality"
proof (intro conjI)
  show "\<exists>r. calculateSM2 (Some c) quality = Inr r"
    using calculateSM2_floor by blast
  show "calculateSM2 (Some c) quality =
       calculateSM2 (Some (c\<lparr>repetitions := JNum (js_or (repetitions c) 0),
          interval := JNum (js_or (interval c) 0),
          easeFactor := JNum (js_or (easeFactor c) (5 / 2))\<rparr>)) quality"
    by (simp add: calculateSM2_def js_or_idem del: js_or.simps)
qed (simp_all add: calculateSM2_def)

section \<open>Properties of the due-state classifier\<close>

lemma setHoursMidnight_le: "setHoursMidnight tz t \<le> t"
  by (simp add: setHoursMidnight_def msPerDay_def)

lemma setHoursMidnight_alt:
  "setHoursMidnight tz t = ((t + tz) div msPerDay) * msPerDay - tz"
proof -
  have "t + tz = ((t + tz) div msPerDay) * msPerDay + (t + tz) mod msPerDay"
    by simp
  then show ?thesis
    unfolding setHoursMidnight_def by linarith
qed

lemma setHoursMidnight_mono:
  assumes "s \<le> t"
  shows "setHoursMidnight tz s \<le> setHoursMidnight tz t"
proof -
  from assms have "(s + tz) div msPerDay \<le> (t + tz) div msPerDay"
    by (intro zdiv_mono1) (simp_all add: msPerDay_def)
  then have "((s + tz) div msPerDay) * msPerDay \<le> ((t + tz) div msPerDay) * msPerDay"
    by (simp add: msPerDay_def)
  then show ?thesis
    by (simp add: setHoursMidnight_alt)
qed

lemma day_test_exact:
  assumes "setHoursMidnight tz d = d \<or> d \<le> now"
  shows "(setHoursMidnight tz d \<le> setHoursMidnight tz now) = (d \<le> now)"
proof (cases "d \<le> now")
  case True
  then show ?thesis
    using setHoursMidnight_mono by simp
next
  case False
  with assms have mid: "setHoursMidnight tz d = d"
    by simp
  have "setHoursMidnight tz now \<le> now"
    by (rule setHoursMidnight_le)
  with False mid show ?thesis
    by simp
qed

lemma evaluateCardDueState_at:
  "evaluateCardDueState now (Some (c\<lparr>dueDate := DateMs d\<rparr>)) =
     (if d \<le> now then (if now - d > 24 * 60 * 60 * 1000 then StateOverdue else StateDue)
      else (if repetitions c = JNum 0 then StateNew else StateScheduled))"
  by (simp add: evaluateCardDueState_def)

text \<open>
  Claim C6, as stated, fails: the classifier compares the exact instants. With UTC as
  the local zone, a card with repetitions 1 that is due at 12:01 is classified at 12:00
  of the same day as scheduled, while the day-granularity test of the claim makes it
  due.
\<close>

theorem classifier_not_by_day_counterexample:
  "evaluateCardDueState 43200000 (Some (sampleCard\<lparr>dueDate := DateMs 43260000\<rparr>))
     = StateScheduled
   \<and> classifyByDay 0 43200000 43260000 (repetitions sampleCard) = StateDue"
  by (simp add: evaluateCardDueState_def classifyByDay_def sampleCard_def
      setHoursMidnight_def msPerDay_def)

text \<open>
  Claim C6, amended. For every card and every instant \<open>now\<close> the classifier returns
  one of the four states new, scheduled, due, overdue, and the test for being due
  compares \<open>now\<close> and the due date as exact instants: a card due at \<open>d\<close> is due when
  \<open>d \<le> now\<close>, and then overdue when \<open>now - d\<close> exceeds 24 hours and due otherwise;
  a card that is not due is new when its repetitions are 0 and scheduled otherwise. A
  card without a due date counts as due now; one whose due date does not parse is not
  due. The exact test agrees with the test at day granularity whenever the due date
  is a local midnight or is not after \<open>now\<close>.
\<close>

theorem classifier_exact_instants:
  "evaluateCardDueState now (Some c) \<in> {StateNew, StateScheduled, StateDue, StateOverdue}
   \<and> evaluateCardDueState now (Some (c\<lparr>dueDate := DateMs d\<rparr>)) =
       (if d \<le> now
        then (if now - d > 24 * 60 * 60 * 1000 then StateOverdue else StateDue)
        else (if repetitions c = JNum 0 then StateNew else StateScheduled))
   \<and> evaluateCardDueState now (Some (c\<lparr>dueDate := DateUndefined\<rparr>)) = StateDue
   \<and> evaluateCardDueState now (Some (c\<lparr>dueDate := DateNull\<rparr>)) = StateDue
   \<and> evaluateCardDueState now (Some (c\<lparr>dueDate := DateInvalid\<rparr>)) =
       (if repetitions c = JNum 0 then StateNew else StateScheduled)
   \<and> (setHoursMidnight tz d = d \<or> d \<le> now \<longrightarrow>
        evaluateCardDueState now (Some (c\<lparr>dueDate := DateMs d\<rparr>)) =
          classifyByDay tz now d (repetitions c))"
proof (intro conjI impI)
  show "evaluateCardDueState now (Some c)
      \<in> {StateNew, StateScheduled, StateDue, StateOverdue}"
    by (simp add: evaluateCardDueState_def Let_def split: option.splits)
  show "evaluateCardDueState now (Some (c\<lparr>dueDate := DateMs d\<rparr>)) =
       (if d \<le> now
        then (if now - d > 24 * 60 * 60 * 1000 then StateOverdue else StateDue)
        else (if repetitions c = JNum 0 then StateNew else StateScheduled))"
    by (rule evaluateCardDueState_at)
  show "evaluateCardDueState now (Some (c\<lparr>dueDate := DateUndefined\<rparr>)) = StateDue"
    by (simp add: evaluateCardDueState_def)
  show "evaluateCardDueState now (Some (c\<lparr>dueDate := DateNull\<rparr>)) = StateDue"
    by (simp add: evaluateCardDueState_def)
  show "evaluateCardDueState now (Some (c\<lparr>dueDate := DateInvalid\<rparr>)) =
       (if repetitions c = JNum 0 then StateNew else StateScheduled)"
    by (simp add: evaluateCardDueState_def)
next
  assume "setHoursMidnight tz d = d \<or> d \<le> now"
  then have "(setHoursMidnight tz d \<le> setHoursMidnight tz now) = (d \<le> now)"
    by (rule day_test_exact)
  then show "evaluateCardDueState now (Some (c\<lparr>dueDate := DateMs d\<rparr>)) =
      classifyByDay tz now d (repetitions c)"
    by (simp add: evaluateCardDueState_at classifyByDay_def)
qed

theorem classifier_exact_instants_witness:
  "(setHoursMidnight 0 msPerDay = msPerDay \<or> msPerDay \<le> 43200000)
   \<and> evaluateCardDueState 43200000 (Some (sampleCard\<lparr>dueDate := DateMs msPerDay\<rparr>))
       = classifyByDay 0 43200000 msPerDay (repetitions sampleCard)
   \<and> evaluateCardDueState 43200000 (Some (sampleCard\<lparr>dueDate := DateMs msPerDay\<rparr>))
       = StateScheduled"
proof -
  have h: "setHoursMidnight 0 msPerDay = msPerDay \<or> msPerDay \<le> 43200000"
    by (simp add: setHoursMidnight_def)
  from classifier_exact_instants [of 43200000 sampleCard msPerDay 0] h
  have "evaluateCardDueState 43200000 (Some (sampleCard\<lparr>dueDate := DateMs msPerDay\<rparr>))
       = classifyByDay 0 43200000 msPerDay (repetitions sampleCard)"
    by blast
  moreover have "classifyByDay 0 43200000 msPerDay (repetitions sampleCard) = StateScheduled"
    by (simp add: classifyByDay_def sampleCard_def setHoursMidnight_def msPerDay_def)
  ultimately show ?thesis
    using h by simp
qed

section \<open>Properties of the review queue\<close>

lemma mset_shuffleBy: "mset (shuffleBy rs xs) = mset xs"
proof (induction rs xs rule: shuffleBy.induct)
  case (3 r rs x xs)
  let ?ys = "x # xs"
  let ?i = "r mod length ?ys"
  have i: "?i < length ?ys"
    by simp
  have "mset ?ys = mset (take ?i ?ys @ ?ys ! ?i # drop (Suc ?i) ?ys)"
    using id_take_nth_drop [OF i] by metis
  then show ?case
    using 3 by (simp add: Let_def del: mod_Suc_eq)
qed simp_all

lemma set_shuffleBy: "set (shuffleBy rs xs) = set xs"
  using mset_shuffleBy [of rs xs] by (metis set_mset_mset)

lemma shuffleBy_any_permutation:
  "mset ys = mset xs \<Longrightarrow> \<exists>rs. shuffleBy rs xs = ys"
proof (induction ys arbitrary: xs)
  case Nil
  then have "xs = []"
    by simp
  then show ?case
    by simp
next
  case (Cons y ys)
  then have "y \<in> set xs"
    by (metis list.set_intros(1) set_mset_mset)
  then obtain i where i: "i < length xs" "xs ! i = y"
    by (auto simp: in_set_conv_nth)
  then obtain x xs' where xs: "xs = x # xs'"
    by (cases xs) auto
  let ?rest = "take i xs @ drop (Suc i) xs"
  have "mset xs = mset (take i xs @ xs ! i # drop (Suc i) xs)"
    using id_take_nth_drop [OF i(1)] by metis
  then have "mset xs = add_mset y (mset ?rest)"
    using i by simp
  with Cons.prems have "mset ys = mset ?rest"
    by simp
  from Cons.IH [OF this] obtain rs where rs: "shuffleBy rs ?rest = ys"
    by blast
  have "i mod length xs = i"
    using i by simp
  then have "shuffleBy (i # rs) xs = y # ys"
    using rs i xs by (simp add: Let_def del: mod_Suc_eq)
  then show ?case
    by blast
qed

lemma queue_member:
  "c \<in> set (openLeitnerQueue rs tz now a ch so) \<longleftrightarrow>
     c \<in> set (db a) \<and> cardToReview tz now (getScopeKey (openLeitnerScope a ch so))
        (getScopeKey (openLeitnerScope a ch so) \<noteq> ''global:all'') c"
  by (simp add: openLeitnerQueue_def Let_def set_shuffleBy db_getAll_def)

lemma cardToReview_scope:
  "cardToReview tz now key ig c \<Longrightarrow>
     scopeKey c = Some key \<or> (ig \<and> scopeKey c = Some ''global:all'')"
  by (auto simp: cardToReview_def split: if_splits)

lemma cardToReview_global:
  "scopeKey c = Some ''global:all'' \<Longrightarrow> dueDate c = DateMs d \<Longrightarrow> d \<le> now \<Longrightarrow>
     cardToReview tz now key (key \<noteq> ''global:all'') c"
  using setHoursMidnight_mono [of d now tz]
  by (auto simp: cardToReview_def)

lemma chat_key: "i \<noteq> [] \<Longrightarrow> getScopeKey (Some (chatScope i)) = ''chat:'' @ i"
  by (simp add: getScopeKey_def chatScope_def)

lemma open_chat_scope: "B \<noteq> [] \<Longrightarrow> openLeitnerScope a (Some B) None = Some (chatScope B)"
  by (simp add: openLeitnerScope_def getChatScope_def chatScope_def)

lemma db_set_member: "c \<in> set (db_set s c)"
  by (induction s) simp_all

lemma add_added:
  assumes "addCurrentWordToLeitner t0 a w (Some s) = (a1, ToastAdded)"
  shows "db a1 = db_set (db a) (newCard t0 (normalizeWord w) s)"
  using assms
  by (auto simp: addCurrentWordToLeitner_def Let_def split: if_splits option.splits)

lemma add_added_member:
  assumes "addCurrentWordToLeitner t0 a w (Some s) = (a1, ToastAdded)"
  shows "\<exists>c \<in> set (db a1). card_id c = getLeitnerCardId (normalizeWord w) (Some s)
      \<and> word c = normalizeWord w
      \<and> scopeKey c = Some (getScopeKey (Some s)) \<and> dueDate c = DateMs t0"
proof
  show "newCard t0 (normalizeWord w) s \<in> set (db a1)"
    using add_added [OF assms] db_set_member by simp
  show "card_id (newCard t0 (normalizeWord w) s)
        = getLeitnerCardId (normalizeWord w) (Some s)
      \<and> word (newCard t0 (normalizeWord w) s) = normalizeWord w
      \<and> scopeKey (newCard t0 (normalizeWord w) s) = Some (getScopeKey (Some s))
      \<and> dueDate (newCard t0 (normalizeWord w) s) = DateMs t0"
    by (simp add: newCard_def)
qed

lemmas sample_eval = openLeitnerQueue_def openLeitnerScope_def getChatScope_def
  getScopeKey_def cardToReview_def db_getAll_def sampleDeckApp_def sampleApp_def
  sampleCard_def newCard_def getGlobalScope_def setHoursMidnight_def msPerDay_def
  Let_def getLeitnerCardId_def chatScope_def normalizeWord_def trim_def
  toLowerCase_def lower_char_def is_space_def db_get_def

text \<open>
  Claim C7. A queue opened for a scope holds a card only if the card's scope key is the
  key of that scope, or the scope is not the global one and the card's scope key is
  \<open>global:all\<close>. Hence a card whose scope key is that of chat \<open>A\<close> is in no queue
  opened for another chat \<open>B\<close> (by chat id or by scope), and a card of the store
  with scope key \<open>global:all\<close> that is due is in the queue opened for any scope. A
  card that \<open>addCurrentWordToLeitner\<close> adds under a scope carries the key of that
  scope and is due from the instant it was added.
\<close>

theorem review_queue_scope_isolation:
  "(\<forall>c \<in> set (openLeitnerQueue rs tz now a chatIdArg scopeOverride).
      scopeKey c = Some (getScopeKey (openLeitnerScope a chatIdArg scopeOverride))
      \<or> (getScopeKey (openLeitnerScope a chatIdArg scopeOverride) \<noteq> ''global:all''
          \<and> scopeKey c = Some ''global:all''))
   \<and> (A \<noteq> [] \<and> B \<noteq> [] \<and> A \<noteq> B
        \<and> scopeKey cA = Some (getScopeKey (Some (chatScope A))) \<longrightarrow>
        cA \<notin> set (openLeitnerQueue rs tz now a (Some B) None)
        \<and> cA \<notin> set (openLeitnerQueue rs tz now a chatIdArg (Some (chatScope B))))
   \<and> (cG \<in> set (db a) \<and> scopeKey cG = Some ''global:all'' \<and> dueDate cG = DateMs d
        \<and> d \<le> now \<longrightarrow>
        cG \<in> set (openLeitnerQueue rs tz now a chatIdArg scopeOverride))
   \<and> (addCurrentWordToLeitner t0 a0 w (Some s) = (a1, ToastAdded) \<longrightarrow>
        (\<exists>c \<in> set (db a1). card_id c = getLeitnerCardId (normalizeWord w) (Some s)
            \<and> word c = normalizeWord w
            \<and> scopeKey c = Some (getScopeKey (Some s)) \<and> dueDate c = DateMs t0))"
proof (intro conjI impI ballI)
  fix c
  assume "c \<in> set (openLeitnerQueue rs tz now a chatIdArg scopeOverride)"
  then show "scopeKey c = Some (getScopeKey (openLeitnerScope a chatIdArg scopeOverride))
      \<or> (getScopeKey (openLeitnerScope a chatIdArg scopeOverride) \<noteq> ''global:all''
          \<and> scopeKey c = Some ''global:all'')"
    using cardToReview_scope by (simp add: queue_member) blast
next
  assume h: "A \<noteq> [] \<and> B \<noteq> [] \<and> A \<noteq> B
      \<and> scopeKey cA = Some (getScopeKey (Some (chatScope A)))"
  then have A: "A \<noteq> []" and B: "B \<noteq> []" and AB: "A \<noteq> B"
    and sk: "scopeKey cA = Some (getScopeKey (Some (chatScope A)))"
    by simp_all
  have k: "scopeKey cA = Some (''chat:'' @ A)"
    using sk chat_key [OF A] by simp
  have kB: "getScopeKey (Some (chatScope B)) = ''chat:'' @ B"
    using B by (rule chat_key)
  have no: "\<not> cardToReview tz now (''chat:'' @ B) ig cA" for ig
    using AB by (simp add: cardToReview_def k)
  show "cA \<notin> set (openLeitnerQueue rs tz now a (Some B) None)"
    using no by (simp add: queue_member open_chat_scope [OF B] kB)
  show "cA \<notin> set (openLeitnerQueue rs tz now a chatIdArg (Some (chatScope B)))"
    using no by (simp add: queue_member openLeitnerScope_def kB)
next
  assume "cG \<in> set (db a) \<and> scopeKey cG = Some ''global:all'' \<and> dueDate cG = DateMs d
      \<and> d \<le> now"
  then show "cG \<in> set (openLeitnerQueue rs tz now a chatIdArg scopeOverride)"
    using cardToReview_global by (simp add: queue_member)
next
  assume "addCurrentWordToLeitner t0 a0 w (Some s) = (a1, ToastAdded)"
  then show "\<exists>c \<in> set (db a1). card_id c = getLeitnerCardId (normalizeWord w) (Some s)
            \<and> word c = normalizeWord w
            \<and> scopeKey c = Some (getScopeKey (Some s)) \<and> dueDate c = DateMs t0"
    by (rule add_added_member)
qed

theorem review_queue_scope_isolation_witness:
  "sampleCard \<in> set (openLeitnerQueue [1] 0 0 sampleDeckApp (Some ''1'') None)
   \<and> (scopeKey sampleCard
        = Some (getScopeKey (openLeitnerScope sampleDeckApp (Some ''1'') None))
      \<or> (getScopeKey (openLeitnerScope sampleDeckApp (Some ''1'') None) \<noteq> ''global:all''
          \<and> scopeKey sampleCard = Some ''global:all''))
   \<and> ''1'' \<noteq> [] \<and> ''2'' \<noteq> [] \<and> ''1'' \<noteq> ''2''
   \<and> scopeKey sampleCard = Some (getScopeKey (Some (chatScope ''1'')))
   \<and> sampleCard \<notin> set (openLeitnerQueue [1] 0 0 sampleDeckApp (Some ''2'') None)
   \<and> newCard 0 ''run'' getGlobalScope \<in> set (db sampleDeckApp)
   \<and> scopeKey (newCard 0 ''run'' getGlobalScope) = Some ''global:all''
   \<and> dueDate (newCard 0 ''run'' getGlobalScope) = DateMs 0
   \<and> newCard 0 ''run'' getGlobalScope
        \<in> set (openLeitnerQueue [1] 0 0 sampleDeckApp (Some ''2'') None)
   \<and> addCurrentWordToLeitner 0 (sampleApp\<lparr> db := [sampleCard] \<rparr>) ''run''
        (Some getGlobalScope) = (sampleDeckApp, ToastAdded)
   \<and> (\<exists>c \<in> set (db sampleDeckApp). card_id c = ''global:all:run'' \<and> word c = ''run''
        \<and> scopeKey c = Some ''global:all'' \<and> dueDate c = DateMs 0)"
proof -
  let ?G = "newCard 0 ''run'' getGlobalScope"
  let ?a0 = "sampleApp\<lparr> db := [sampleCard] \<rparr>"
  have q1: "sampleCard \<in> set (openLeitnerQueue [1] 0 0 sampleDeckApp (Some ''1'') None)"
    by (simp add: sample_eval)
  have ks: "''1'' \<noteq> [] \<and> ''2'' \<noteq> [] \<and> ''1'' \<noteq> ''2''
      \<and> scopeKey sampleCard = Some (getScopeKey (Some (chatScope ''1'')))"
    by (simp add: sample_eval)
  have g: "?G \<in> set (db sampleDeckApp) \<and> scopeKey ?G = Some ''global:all''
      \<and> dueDate ?G = DateMs 0 \<and> (0 :: int) \<le> 0"
    by (simp add: sample_eval)
  have ad: "addCurrentWordToLeitner 0 ?a0 ''run'' (Some getGlobalScope)
      = (sampleDeckApp, ToastAdded)"
    by (simp add: addCurrentWordToLeitner_def sample_eval)
  have ev1: "getLeitnerCardId ''run'' (Some getGlobalScope) = ''global:all:run''"
    by (simp add: sample_eval)
  have ev2: "normalizeWord ''run'' = ''run''"
    by (simp add: sample_eval)
  have ev3: "getScopeKey (Some getGlobalScope) = ''global:all''"
    by (simp add: sample_eval)
  note T1 = review_queue_scope_isolation [where rs = "[1]" and tz = 0 and now = 0
      and a = sampleDeckApp and chatIdArg = "Some ''1''" and scopeOverride = None
      and A = "''1''" and B = "''2''" and cA = sampleCard and cG = ?G and d = 0
      and ?t0.0 = 0 and ?a0.0 = ?a0 and w = "''run''" and s = getGlobalScope
      and ?a1.0 = sampleDeckApp]
  note T2 = review_queue_scope_isolation [where rs = "[1]" and tz = 0 and now = 0
      and a = sampleDeckApp and chatIdArg = "Some ''2''" and scopeOverride = None
      and A = "''1''" and B = "''2''" and cA = sampleCard and cG = ?G and d = 0
      and ?t0.0 = 0 and ?a0.0 = ?a0 and w = "''run''" and s = getGlobalScope
      and ?a1.0 = sampleDeckApp]
  from T1 q1 have c1: "scopeKey sampleCard
        = Some (getScopeKey (openLeitnerScope sampleDeckApp (Some ''1'') None))
      \<or> (getScopeKey (openLeitnerScope sampleDeckApp (Some ''1'') None) \<noteq> ''global:all''
          \<and> scopeKey sampleCard = Some ''global:all'')"
    by blast
  from T1 ks have c2: "sampleCard \<notin> set (openLeitnerQueue [1] 0 0 sampleDeckApp (Some ''2'') None)"
    by blast
  from T2 g have c3: "?G \<in> set (openLeitnerQueue [1] 0 0 sampleDeckApp (Some ''2'') None)"
    by blast
  from T1 ad have "\<exists>c \<in> set (db sampleDeckApp).
        card_id c = getLeitnerCardId (normalizeWord ''run'') (Some getGlobalScope)
        \<and> word c = normalizeWord ''run''
        \<and> scopeKey c = Some (getScopeKey (Some getGlobalScope)) \<and> dueDate c = DateMs 0"
    by blast
  then have c4: "\<exists>c \<in> set (db sampleDeckApp). card_id c = ''global:all:run''
        \<and> word c = ''run'' \<and> scopeKey c = Some ''global:all'' \<and> dueDate c = DateMs 0"
    by (simp only: ev1 ev2 ev3)
  from q1 c1 ks c2 g c3 ad c4 show ?thesis
    by blast
qed

section \<open>Properties of adding a word\<close>

lemma getActiveScope_db: "getActiveScope (a\<lparr>db := s\<rparr>) b = getActiveScope a b"
  by (simp add: getActiveScope_def getDocumentScope_def getChatScope_def)

lemma filter_id_absent: "k \<notin> card_id ` set s \<Longrightarrow> filter (\<lambda>y. card_id y = k) s = []"
  by (induction s) auto

lemma db_set_filter_count:
  "distinct (map card_id s) \<Longrightarrow> length (filter (\<lambda>x. card_id x = card_id c) (db_set s c)) = 1"
proof (induction s)
  case Nil
  then show ?case by simp
next
  case (Cons x s)
  show ?case
  proof (cases "card_id x = card_id c")
    case True
    from Cons.prems have "card_id x \<notin> card_id ` set s" by simp
    with True have "filter (\<lambda>y. card_id y = card_id c) s = []"
      by (simp add: filter_id_absent)
    with True show ?thesis by simp
  next
    case False
    with Cons show ?thesis by simp
  qed
qed

lemma db_get_filter_count:
  "distinct (map card_id s) \<Longrightarrow> db_get s k = Some e \<Longrightarrow> length (filter (\<lambda>x. card_id x = k) s) = 1"
proof (induction s)
  case Nil
  then show ?case by (simp add: db_get_def)
next
  case (Cons x s)
  show ?case
  proof (cases "card_id x = k")
    case True
    from Cons.prems have "card_id x \<notin> card_id ` set s" by simp
    with True have "filter (\<lambda>y. card_id y = k) s = []"
      by (simp add: filter_id_absent)
    with True show ?thesis by simp
  next
    case False
    with Cons show ?thesis by (simp add: db_get_def)
  qed
qed

lemma newCard_id: "card_id (newCard t w s) = getLeitnerCardId w (Some s)"
  by (simp add: newCard_def)

lemma add_existing:
  assumes "normalizeWord w \<noteq> []"
    and "(case sc of Some s \<Rightarrow> Some s | None \<Rightarrow> getActiveScope a True) = Some ts"
    and "db_get (db a) (getLeitnerCardId (normalizeWord w) (Some ts)) = Some existing"
  shows "addCurrentWordToLeitner now a w sc = (a, ToastAlreadyInDeck)"
  using assms by (simp add: addCurrentWordToLeitner_def Let_def)

lemma add_twice:
  assumes "snd (addCurrentWordToLeitner t1 a w sc) = ToastAdded \<or> snd (addCurrentWordToLeitner t1 a w sc) = ToastAlreadyInDeck"
  shows "addCurrentWordToLeitner t2 (fst (addCurrentWordToLeitner t1 a w sc)) w sc
       = (fst (addCurrentWordToLeitner t1 a w sc), ToastAlreadyInDeck)"
proof -
  from assms have nw: "normalizeWord w \<noteq> []"
    by (auto simp: addCurrentWordToLeitner_def Let_def split: if_splits)
  from assms nw obtain ts where ts: "(case sc of Some s \<Rightarrow> Some s | None \<Rightarrow> getActiveScope a True) = Some ts"
    by (cases "case sc of Some s \<Rightarrow> Some s | None \<Rightarrow> getActiveScope a True")
       (auto simp: addCurrentWordToLeitner_def Let_def)
  let ?cid = "getLeitnerCardId (normalizeWord w) (Some ts)"
  show ?thesis
  proof (cases "db_get (db a) ?cid")
    case None
    then have a1: "addCurrentWordToLeitner t1 a w sc = (a\<lparr>db := db_set (db a) (newCard t1 (normalizeWord w) ts)\<rparr>, ToastAdded)"
      using nw ts by (simp add: addCurrentWordToLeitner_def Let_def)
    have ts': "(case sc of Some s \<Rightarrow> Some s | None \<Rightarrow> getActiveScope (a\<lparr>db := db_set (db a) (newCard t1 (normalizeWord w) ts)\<rparr>) True) = Some ts"
      using ts by (cases sc) (simp_all add: getActiveScope_db)
    have "db_get (db_set (db a) (newCard t1 (normalizeWord w) ts)) ?cid = Some (newCard t1 (normalizeWord w) ts)"
      using db_get_db_set_same[of "db a" "newCard t1 (normalizeWord w) ts"] by (simp add: newCard_id)
    then show ?thesis
      using add_existing[OF nw ts', of "newCard t1 (normalizeWord w) ts" t2] a1 by simp
  next
    case (Some e)
    then show ?thesis using add_existing[OF nw ts Some] by simp
  qed
qed


lemma add_count:
  assumes d: "distinct (map card_id (db a))"
    and t: "snd (addCurrentWordToLeitner t1 a w (Some s)) = ToastAdded \<or> snd (addCurrentWordToLeitner t1 a w (Some s)) = ToastAlreadyInDeck"
  shows "length (filter (\<lambda>c. card_id c = getLeitnerCardId (normalizeWord w) (Some s))
            (db (fst (addCurrentWordToLeitner t1 a w (Some s))))) = 1"
proof -
  from t have nw: "normalizeWord w \<noteq> []"
    by (auto simp: addCurrentWordToLeitner_def Let_def split: if_splits)
  let ?cid = "getLeitnerCardId (normalizeWord w) (Some s)"
  show ?thesis
  proof (cases "db_get (db a) ?cid")
    case None
    then have "db (fst (addCurrentWordToLeitner t1 a w (Some s))) = db_set (db a) (newCard t1 (normalizeWord w) s)"
      using nw by (simp add: addCurrentWordToLeitner_def Let_def)
    then show ?thesis using db_set_filter_count[OF d, of "newCard t1 (normalizeWord w) s"]
      by (simp add: newCard_id)
  next
    case (Some e)
    then have "fst (addCurrentWordToLeitner t1 a w (Some s)) = a"
      using nw by (simp add: addCurrentWordToLeitner_def Let_def)
    then show ?thesis using db_get_filter_count[OF d Some] by simp
  qed
qed

text \<open>
  Claim C8. If the store already holds a card with the id computed for the word and the
  target scope, \<open>addCurrentWordToLeitner\<close> changes nothing and shows the toast that
  the word is already in the deck. Hence, whenever a first call has added the word or
  found it already there, a second call with the same word and scope leaves the state
  of the first call unchanged (so the card and its repetitions are unchanged) and shows
  that toast, and the store, which holds at most one card per id, then holds exactly
  one card with that id.
\<close>

theorem add_is_deduplicated:
  "(normalizeWord w \<noteq> []
      \<and> (case sc of Some s \<Rightarrow> Some s | None \<Rightarrow> getActiveScope a True) = Some ts
      \<and> db_get (db a) (getLeitnerCardId (normalizeWord w) (Some ts)) = Some existing \<longrightarrow>
      addCurrentWordToLeitner now a w sc = (a, ToastAlreadyInDeck))
   \<and> (snd (addCurrentWordToLeitner t1 a w sc) = ToastAdded
        \<or> snd (addCurrentWordToLeitner t1 a w sc) = ToastAlreadyInDeck \<longrightarrow>
      addCurrentWordToLeitner t2 (fst (addCurrentWordToLeitner t1 a w sc)) w sc
        = (fst (addCurrentWordToLeitner t1 a w sc), ToastAlreadyInDeck))
   \<and> (distinct (map card_id (db a))
        \<and> (snd (addCurrentWordToLeitner t1 a w (Some s)) = ToastAdded
          \<or> snd (addCurrentWordToLeitner t1 a w (Some s)) = ToastAlreadyInDeck) \<longrightarrow>
      length (filter (\<lambda>c. card_id c = getLeitnerCardId (normalizeWord w) (Some s))
        (db (fst (addCurrentWordToLeitner t2
               (fst (addCurrentWordToLeitner t1 a w (Some s))) w (Some s))))) = 1)"
proof (intro conjI impI)
  assume "normalizeWord w \<noteq> []
      \<and> (case sc of Some s \<Rightarrow> Some s | None \<Rightarrow> getActiveScope a True) = Some ts
      \<and> db_get (db a) (getLeitnerCardId (normalizeWord w) (Some ts)) = Some existing"
  then show "addCurrentWordToLeitner now a w sc = (a, ToastAlreadyInDeck)"
    using add_existing by blast
next
  assume "snd (addCurrentWordToLeitner t1 a w sc) = ToastAdded
        \<or> snd (addCurrentWordToLeitner t1 a w sc) = ToastAlreadyInDeck"
  then show "addCurrentWordToLeitner t2 (fst (addCurrentWordToLeitner t1 a w sc)) w sc
        = (fst (addCurrentWordToLeitner t1 a w sc), ToastAlreadyInDeck)"
    by (rule add_twice)
next
  assume h: "distinct (map card_id (db a))
        \<and> (snd (addCurrentWordToLeitner t1 a w (Some s)) = ToastAdded
          \<or> snd (addCurrentWordToLeitner t1 a w (Some s)) = ToastAlreadyInDeck)"
  then have "addCurrentWordToLeitner t2 (fst (addCurrentWordToLeitner t1 a w (Some s))) w (Some s)
        = (fst (addCurrentWordToLeitner t1 a w (Some s)), ToastAlreadyInDeck)"
    using add_twice by blast
  with h show "length (filter (\<lambda>c. card_id c = getLeitnerCardId (normalizeWord w) (Some s))
        (db (fst (addCurrentWordToLeitner t2
               (fst (addCurrentWordToLeitner t1 a w (Some s))) w (Some s))))) = 1"
    using add_count by simp
qed

theorem add_is_deduplicated_witness:
  "normalizeWord '' Apple'' \<noteq> []
   \<and> db_get (db (sampleApp\<lparr>db := [sampleCard]\<rparr>))
        (getLeitnerCardId (normalizeWord '' Apple'') (Some (chatScope ''1'')))
      = Some sampleCard
   \<and> addCurrentWordToLeitner 5 (sampleApp\<lparr>db := [sampleCard]\<rparr>) '' Apple''
        (Some (chatScope ''1''))
      = (sampleApp\<lparr>db := [sampleCard]\<rparr>, ToastAlreadyInDeck)
   \<and> distinct (map card_id (db sampleApp))
   \<and> snd (addCurrentWordToLeitner 5 sampleApp ''apple'' (Some (chatScope ''1'')))
      = ToastAdded
   \<and> addCurrentWordToLeitner 6
        (fst (addCurrentWordToLeitner 5 sampleApp ''apple'' (Some (chatScope ''1''))))
        ''apple'' (Some (chatScope ''1''))
      = (fst (addCurrentWordToLeitner 5 sampleApp ''apple'' (Some (chatScope ''1''))),
         ToastAlreadyInDeck)
   \<and> length (filter
        (\<lambda>c. card_id c = getLeitnerCardId (normalizeWord ''apple'') (Some (chatScope ''1'')))
        (db (fst (addCurrentWordToLeitner 6
          (fst (addCurrentWordToLeitner 5 sampleApp ''apple'' (Some (chatScope ''1''))))
          ''apple'' (Some (chatScope ''1'')))))) = 1"
proof -
  let ?a = "sampleApp\<lparr>db := [sampleCard]\<rparr>"
  let ?sc = "Some (chatScope ''1'')"
  have h1: "normalizeWord '' Apple'' \<noteq> []
      \<and> (case ?sc of Some s \<Rightarrow> Some s | None \<Rightarrow> getActiveScope ?a True)
          = Some (chatScope ''1'')
      \<and> db_get (db ?a) (getLeitnerCardId (normalizeWord '' Apple'') ?sc) = Some sampleCard"
    by (simp add: sample_eval)
  have h2: "distinct (map card_id (db sampleApp))
      \<and> snd (addCurrentWordToLeitner 5 sampleApp ''apple'' ?sc) = ToastAdded"
    by (simp add: addCurrentWordToLeitner_def sample_eval)
  note T1 = add_is_deduplicated [where w = "'' Apple''" and sc = ?sc and a = ?a
      and ts = "chatScope ''1''" and existing = sampleCard and now = 5]
  note T2 = add_is_deduplicated [where w = "''apple''" and sc = ?sc and a = sampleApp
      and s = "chatScope ''1''" and ?t1.0 = 5 and ?t2.0 = 6]
  from T1 h1 have c1: "addCurrentWordToLeitner 5 ?a '' Apple'' ?sc = (?a, ToastAlreadyInDeck)"
    by blast
  from T2 h2 have c2: "addCurrentWordToLeitner 6
        (fst (addCurrentWordToLeitner 5 sampleApp ''apple'' ?sc)) ''apple'' ?sc
      = (fst (addCurrentWordToLeitner 5 sampleApp ''apple'' ?sc), ToastAlreadyInDeck)"
    by blast
  from T2 h2 have c3: "length (filter
        (\<lambda>c. card_id c = getLeitnerCardId (normalizeWord ''apple'') ?sc)
        (db (fst (addCurrentWordToLeitner 6
          (fst (addCurrentWordToLeitner 5 sampleApp ''apple'' ?sc)) ''apple'' ?sc)))) = 1"
    by blast
  from h1 h2 c1 c2 c3 show ?thesis
    by blast
qed

section \<open>The end-to-end scenario\<close>

lemma shuffleBy_single: "shuffleBy rs [x] = [x]"
  by (cases rs) simp_all

lemma run_word: "normalizeWord ''run'' = ''run''"
  by (simp add: normalizeWord_def trim_def toLowerCase_def lower_char_def is_space_def)

lemma doc_key: "getScopeKey (Some (documentScope ''doc1'')) = ''document:doc1''"
  by (simp add: getScopeKey_def documentScope_def)

lemma scenario_add:
  "addCurrentWordToLeitner t0 (a\<lparr>db := []\<rparr>) ''run'' (Some (documentScope ''doc1''))
     = (a\<lparr>db := [newCard t0 ''run'' (documentScope ''doc1'')]\<rparr>, ToastAdded)"
  by (simp add: addCurrentWordToLeitner_def run_word db_get_def)

lemma scenario_queue:
  assumes "t0 \<le> t1"
  shows "openLeitnerQueue rs tz t1 (a\<lparr>db := [newCard t0 ''run'' (documentScope ''doc1'')]\<rparr>)
      chatIdArg (Some (documentScope ''doc1'')) = [newCard t0 ''run'' (documentScope ''doc1'')]"
proof -
  have "cardToReview tz t1 ''document:doc1'' True (newCard t0 ''run'' (documentScope ''doc1''))"
    using setHoursMidnight_mono[OF assms, of tz]
    by (simp add: cardToReview_def newCard_def doc_key)
  then show ?thesis
    by (simp add: openLeitnerQueue_def openLeitnerScope_def doc_key db_getAll_def shuffleBy_single)
qed

lemma scenario_open:
  assumes "t0 \<le> t1"
  shows "openLeitnerModal rs tz t1 (a\<lparr>db := [newCard t0 ''run'' (documentScope ''doc1'')]\<rparr>)
      chatIdArg (Some (documentScope ''doc1''))
    = a\<lparr>db := [newCard t0 ''run'' (documentScope ''doc1'')],
         leitnerFinishedScreen := False,
         currentLeitnerScope := Some (documentScope ''doc1''),
         leitnerQueue := [],
         leitnerStatsNew := 1, leitnerStatsDue := 0,
         currentCard := Some (newCard t0 ''run'' (documentScope ''doc1''))\<rparr>"
  by (simp add: openLeitnerModal_def scenario_queue[OF assms] showNextCard_def openLeitnerScope_def)
     (simp add: newCard_def)

lemma good_new: "calculateSM2 (Some (newCard t0 w s)) 3
   = Inr \<lparr> newRepetitions = 1, newInterval = 1, newEaseFactor = 59 / 25 \<rparr>"
  by (simp add: calculateSM2_def newCard_def)

lemma scenario_rate:
  "rateCard tz t2 (a\<lparr>db := [newCard t0 ''run'' (documentScope ''doc1'')],
         leitnerFinishedScreen := False,
         currentLeitnerScope := Some (documentScope ''doc1''),
         leitnerQueue := [],
         leitnerStatsNew := 1, leitnerStatsDue := 0,
         currentCard := Some (newCard t0 ''run'' (documentScope ''doc1''))\<rparr>) Good
   = a\<lparr>db := [(newCard t0 ''run'' (documentScope ''doc1''))
                 \<lparr>repetitions := JNum 1, interval := JNum 1, easeFactor := JNum (59 / 25),
                  dueDate := DateMs (setHoursMidnight tz t2 + msPerDay),
                  lastReviewed := DateMs t2, status := Some ''learning''\<rparr>],
         leitnerFinishedScreen := True,
         currentLeitnerScope := Some (documentScope ''doc1''),
         leitnerQueue := [],
         leitnerStatsNew := 1, leitnerStatsDue := 0,
         currentCard := Some (newCard t0 ''run'' (documentScope ''doc1''))\<rparr>"
  by (simp add: rateCard_def good_new showNextCard_def showFinishedScreen_def updatedCard_def setDatePlus_def)

text \<open>
  Claim C5, as stated, fails: in the scenario (word \<open>run\<close> added under
  \<open>document:doc1\<close> to an empty store, review opened, card rated Good, all at instant 0
  in UTC) the card that is stored after the rating has status \<open>learning\<close>, not
  \<open>review\<close>.
\<close>

theorem end_to_end_status_counterexample:
  "map_option status (db_get (db (rateCard 0 0
      (openLeitnerModal [] 0 0
        (fst (addCurrentWordToLeitner 0 sampleApp ''run'' (Some (documentScope ''doc1''))))
        None (Some (documentScope ''doc1''))) Good)) ''document:doc1:run'')
    = Some (Some ''learning'')
   \<and> map_option status (db_get (db (rateCard 0 0
      (openLeitnerModal [] 0 0
        (fst (addCurrentWordToLeitner 0 sampleApp ''run'' (Some (documentScope ''doc1''))))
        None (Some (documentScope ''doc1''))) Good)) ''document:doc1:run'')
    \<noteq> Some (Some ''review'')"
  by (simp add: addCurrentWordToLeitner_def sample_eval documentScope_def
      openLeitnerModal_def showNextCard_def showFinishedScreen_def rateCard_def
      calculateSM2_def updatedCard_def)

text \<open>
  Claim C5, amended. Starting from an empty store, the word \<open>run\<close> is added under
  \<open>document:doc1\<close> at instant \<open>t0\<close>; the store then holds exactly that card, which is
  due. A review opened for \<open>document:doc1\<close> at any instant \<open>t1\<close> not before \<open>t0\<close>
  has a queue of exactly that card and shows the counts new 1 and review 0. After the
  rating Good at instant \<open>t2\<close> the stored card has repetitions 1, interval 1, status
  \<open>learning\<close> and a due date at the local midnight that follows \<open>t2\<close>; the queue is
  empty and the finished screen is shown.
\<close>

theorem end_to_end_review:
  assumes "t0 \<le> t1"
  shows "let doc = documentScope ''doc1'';
             run = newCard t0 ''run'' doc;
             added = addCurrentWordToLeitner t0 (a\<lparr>db := []\<rparr>) ''run'' (Some doc);
             a2 = openLeitnerModal rs tz t1 (fst added) chatIdArg (Some doc);
             a3 = rateCard tz t2 a2 Good
         in snd added = ToastAdded \<and> db (fst added) = [run]
            \<and> card_id run = ''document:doc1:run''
            \<and> evaluateCardDueState t0 (Some run) = StateDue
            \<and> openLeitnerQueue rs tz t1 (fst added) chatIdArg (Some doc) = [run]
            \<and> leitnerStatsNew a2 = 1 \<and> leitnerStatsDue a2 = 0
            \<and> currentCard a2 = Some run \<and> leitnerQueue a2 = [] \<and> \<not> leitnerFinishedScreen a2
            \<and> db a3 = [run\<lparr>repetitions := JNum 1, interval := JNum 1,
                            easeFactor := JNum (59 / 25),
                            dueDate := DateMs (setHoursMidnight tz t2 + msPerDay),
                            lastReviewed := DateMs t2, status := Some ''learning''\<rparr>]
            \<and> leitnerQueue a3 = [] \<and> leitnerFinishedScreen a3"
proof -
  have due: "evaluateCardDueState t0 (Some (newCard t0 ''run'' (documentScope ''doc1'')))
      = StateDue"
    by (simp add: evaluateCardDueState_def newCard_def)
  have cid: "card_id (newCard t0 ''run'' (documentScope ''doc1'')) = ''document:doc1:run''"
    by (simp add: newCard_def getLeitnerCardId_def doc_key run_word)
  show ?thesis
    unfolding Let_def scenario_add fst_conv snd_conv scenario_queue[OF assms]
      scenario_open[OF assms] scenario_rate
    using due cid by simp
qed

theorem end_to_end_review_witness:
  "(0 :: int) \<le> 0
   \<and> db (rateCard 0 0
        (openLeitnerModal [] 0 0
          (fst (addCurrentWordToLeitner 0 (sampleApp\<lparr>db := []\<rparr>) ''run''
             (Some (documentScope ''doc1''))))
          None (Some (documentScope ''doc1''))) Good)
      = [(newCard 0 ''run'' (documentScope ''doc1''))
           \<lparr>repetitions := JNum 1, interval := JNum 1, easeFactor := JNum (59 / 25),
            dueDate := DateMs (setHoursMidnight 0 0 + msPerDay),
            lastReviewed := DateMs 0, status := Some ''learning''\<rparr>]
   \<and> leitnerFinishedScreen (rateCard 0 0
        (openLeitnerModal [] 0 0
          (fst (addCurrentWordToLeitner 0 (sampleApp\<lparr>db := []\<rparr>) ''run''
             (Some (documentScope ''doc1''))))
          None (Some (documentScope ''doc1''))) Good)"
proof -
  have h: "(0 :: int) \<le> 0"
    by simp
  from end_to_end_review [OF h, of sampleApp "[]" 0 None 0] show ?thesis
    by (simp add: Let_def)
qed

section \<open>Properties of the migration\<close>

lemma migrated_id: "card_id (migrated t v w) = card_id (migrated 0 v w)"
  by (simp add: migrated_def Let_def)

lemma db_get_db_set: "db_get (db_set s c) k = (if k = card_id c then Some c else db_get s k)"
  by (induction s) (auto simp: db_get_def)

lemma ids_db_set_present:
  "card_id c \<in> card_id ` set s \<Longrightarrow> map card_id (db_set s c) = map card_id s"
  by (induction s) auto

lemma ids_db_set_absent:
  "card_id c \<notin> card_id ` set s \<Longrightarrow> map card_id (db_set s c) = map card_id s @ [card_id c]"
  by (induction s) auto

lemma ids_db_set_cong:
  "map card_id s1 = map card_id s2 \<Longrightarrow> card_id c1 = card_id c2 \<Longrightarrow>
   map card_id (db_set s1 c1) = map card_id (db_set s2 c2)"
proof (cases "card_id c1 \<in> card_id ` set s1")
  case True
  assume a: "map card_id s1 = map card_id s2" "card_id c1 = card_id c2"
  then have "card_id c2 \<in> card_id ` set s2" using True by (metis set_map)
  with True a show ?thesis by (simp add: ids_db_set_present)
next
  case False
  assume a: "map card_id s1 = map card_id s2" "card_id c1 = card_id c2"
  then have "card_id c2 \<notin> card_id ` set s2" using False by (metis set_map)
  with False a show ?thesis by (simp add: ids_db_set_absent)
qed

lemma distinct_db_set: "distinct (map card_id s) \<Longrightarrow> distinct (map card_id (db_set s c))"
  by (cases "card_id c \<in> card_id ` set s") (simp_all add: ids_db_set_present ids_db_set_absent)

lemma distinct_migrateLegacy:
  "distinct (map card_id s) \<Longrightarrow> distinct (map card_id (migrateLegacy t L s))"
  by (induction L arbitrary: s) (auto simp: distinct_db_set split: option.splits)

lemma ids_migrateLegacy_cong:
  "map card_id s1 = map card_id s2 \<Longrightarrow>
   map card_id (migrateLegacy t1 L s1) = map card_id (migrateLegacy t2 L s2)"
proof (induction L arbitrary: s1 s2)
  case Nil then show ?case by simp
next
  case (Cons v L)
  show ?case
  proof (cases "legacy_word v")
    case None with Cons show ?thesis by simp
  next
    case (Some w)
    have "map card_id (db_set s1 (migrated t1 v w)) = map card_id (db_set s2 (migrated t2 v w))"
      using Cons.prems migrated_id[of t1 v w] migrated_id[of t2 v w] by (intro ids_db_set_cong) simp_all
    from Cons.IH[OF this] Cons.IH[OF Cons.prems] Some show ?thesis by simp
  qed
qed

lemma ids_subset_db_set: "card_id ` set s \<subseteq> card_id ` set (db_set s c)"
  by (induction s) auto

lemma ids_migrateLegacy_fixed:
  "set (migratedIds L) \<subseteq> card_id ` set s \<Longrightarrow> map card_id (migrateLegacy t L s) = map card_id s"
proof (induction L arbitrary: s)
  case Nil then show ?case by simp
next
  case (Cons v L)
  show ?case
  proof (cases "legacy_word v")
    case None with Cons show ?thesis by simp
  next
    case (Some w)
    show ?thesis
    proof (cases "w = []")
      case True with Some Cons show ?thesis by simp
    next
      case False
      with Some Cons.prems have in_s: "card_id (migrated t v w) \<in> card_id ` set s"
        and rest: "set (migratedIds L) \<subseteq> card_id ` set s"
        using migrated_id[of t v w] by auto
      have ids: "map card_id (db_set s (migrated t v w)) = map card_id s"
        using in_s by (rule ids_db_set_present)
      then have "card_id ` set (db_set s (migrated t v w)) = card_id ` set s"
        by (metis set_map)
      with rest have "set (migratedIds L) \<subseteq> card_id ` set (db_set s (migrated t v w))" by simp
      from Cons.IH[OF this] ids Some False show ?thesis by simp
    qed
  qed
qed

lemma ids_grow: "card_id ` set s \<subseteq> card_id ` set (migrateLegacy t L s)"
proof (induction L arbitrary: s)
  case Nil then show ?case by simp
next
  case (Cons v L)
  show ?case
  proof (cases "legacy_word v")
    case None with Cons show ?thesis by simp
  next
    case (Some w)
    show ?thesis
    proof (cases "w = []")
      case True with Some Cons show ?thesis by simp
    next
      case False
      have "card_id ` set s \<subseteq> card_id ` set (db_set s (migrated t v w))"
        by (rule ids_subset_db_set)
      also have "\<dots> \<subseteq> card_id ` set (migrateLegacy t L (db_set s (migrated t v w)))"
        by (rule Cons.IH)
      finally show ?thesis using Some False by simp
    qed
  qed
qed

lemma written_ids_present: "set (migratedIds L) \<subseteq> card_id ` set (migrateLegacy t L s)"
proof (induction L arbitrary: s)
  case Nil then show ?case by simp
next
  case (Cons v L)
  show ?case
  proof (cases "legacy_word v")
    case None with Cons show ?thesis by simp
  next
    case (Some w)
    show ?thesis
    proof (cases "w = []")
      case True with Some Cons show ?thesis by simp
    next
      case False
      have "card_id (migrated t v w) \<in> card_id ` set (db_set s (migrated t v w))"
        using db_set_member by blast
      then have "card_id (migrated 0 v w) \<in> card_id ` set (migrateLegacy t L (db_set s (migrated t v w)))"
        using ids_grow[of "db_set s (migrated t v w)" t L] migrated_id[of t v w] by auto
      with Cons.IH[of "db_set s (migrated t v w)"] Some False show ?thesis by simp
    qed
  qed
qed

lemma db_get_unwritten:
  "k \<notin> set (migratedIds L) \<Longrightarrow> db_get (migrateLegacy t L s) k = db_get s k"
proof (induction L arbitrary: s)
  case Nil then show ?case by simp
next
  case (Cons v L)
  show ?case
  proof (cases "legacy_word v")
    case None with Cons show ?thesis by simp
  next
    case (Some w)
    show ?thesis
    proof (cases "w = []")
      case True with Some Cons show ?thesis by simp
    next
      case False
      with Some Cons.prems have k: "k \<noteq> card_id (migrated t v w)" "k \<notin> set (migratedIds L)"
        using migrated_id[of t v w] by auto
      from Cons.IH[OF k(2)] k(1) Some False show ?thesis by (simp add: db_get_db_set)
    qed
  qed
qed

lemma db_get_migrate_cong:
  "\<forall>k. k \<notin> set (migratedIds L) \<longrightarrow> db_get s1 k = db_get s2 k \<Longrightarrow>
   db_get (migrateLegacy t L s1) k = db_get (migrateLegacy t L s2) k"
proof (induction L arbitrary: s1 s2)
  case Nil
  then show ?case by simp
next
  case (Cons v L)
  show ?case
  proof (cases "str_truthy (legacy_word v)")
    case False
    then have skip: "migratedIds (v # L) = migratedIds L"
      "migrateLegacy t (v # L) s1 = migrateLegacy t L s1"
      "migrateLegacy t (v # L) s2 = migrateLegacy t L s2"
      by (cases "legacy_word v"; simp)+
    from Cons.prems have "\<forall>k. k \<notin> set (migratedIds L) \<longrightarrow> db_get s1 k = db_get s2 k"
      by (simp only: skip)
    from Cons.IH [OF this] show ?thesis
      by (simp only: skip)
  next
    case True
    then obtain w where w: "legacy_word v = Some w" "w \<noteq> []"
      by (cases "legacy_word v") auto
    let ?c = "migrated t v w"
    have ids: "migratedIds (v # L) = card_id ?c # migratedIds L"
      using w migrated_id [of t v w] by simp
    have "\<forall>k. k \<notin> set (migratedIds L) \<longrightarrow> db_get (db_set s1 ?c) k = db_get (db_set s2 ?c) k"
    proof (intro allI impI)
      fix k
      assume k: "k \<notin> set (migratedIds L)"
      show "db_get (db_set s1 ?c) k = db_get (db_set s2 ?c) k"
      proof (cases "k = card_id ?c")
        case True
        then show ?thesis by (simp add: db_get_db_set)
      next
        case False
        with k have "k \<notin> set (card_id ?c # migratedIds L)"
          by simp
        then have "k \<notin> set (migratedIds (v # L))"
          unfolding ids .
        with Cons.prems have "db_get s1 k = db_get s2 k"
          by blast
        with False show ?thesis by (simp add: db_get_db_set)
      qed
    qed
    from Cons.IH [OF this] show ?thesis
      using w by simp
  qed
qed

lemma db_get_absent: "k \<notin> card_id ` set s \<Longrightarrow> db_get s k = None"
  by (induction s) (auto simp: db_get_def)

lemma store_eqI:
  "map card_id xs = map card_id ys \<Longrightarrow> distinct (map card_id xs) \<Longrightarrow>
   (\<And>k. db_get xs k = db_get ys k) \<Longrightarrow> xs = ys"
proof (induction xs arbitrary: ys)
  case Nil then show ?case by simp
next
  case (Cons x xs)
  from Cons.prems(1) obtain y ys' where ys: "ys = y # ys'" by (cases ys) auto
  with Cons.prems(1) have idxy: "card_id x = card_id y" and ids: "map card_id xs = map card_id ys'" by simp_all
  from Cons.prems(3)[of "card_id x"] ys idxy have xy: "x = y" by (simp add: db_get_def)
  from Cons.prems(2) have nx: "card_id x \<notin> card_id ` set xs" and d: "distinct (map card_id xs)" by simp_all
  from nx ids have ny: "card_id x \<notin> card_id ` set ys'" by (metis set_map)
  have "db_get xs k = db_get ys' k" for k
  proof (cases "k = card_id x")
    case True then show ?thesis using nx ny by (simp add: db_get_absent)
  next
    case False
    with Cons.prems(3)[of k] ys idxy show ?thesis by (simp add: db_get_def)
  qed
  from Cons.IH[OF ids d this] xy ys show ?case by simp
qed

lemma migrate_twice:
  assumes "distinct (map card_id s)"
  shows "migrateLegacy t2 L (migrateLegacy t1 L s) = migrateLegacy t2 L s"
proof (rule store_eqI)
  have "map card_id (migrateLegacy t2 L (migrateLegacy t1 L s)) = map card_id (migrateLegacy t1 L s)"
    using written_ids_present by (rule ids_migrateLegacy_fixed)
  also have "\<dots> = map card_id (migrateLegacy t2 L s)"
    by (rule ids_migrateLegacy_cong) simp
  finally show "map card_id (migrateLegacy t2 L (migrateLegacy t1 L s)) = map card_id (migrateLegacy t2 L s)" .
  show "distinct (map card_id (migrateLegacy t2 L (migrateLegacy t1 L s)))"
    using assms by (intro distinct_migrateLegacy)
  show "db_get (migrateLegacy t2 L (migrateLegacy t1 L s)) k = db_get (migrateLegacy t2 L s) k" for k
    by (rule db_get_migrate_cong) (simp add: db_get_unwritten)
qed

lemma migrated_time_free: "date_truthy (legacy_createdAt v) \<Longrightarrow> migrated t1 v w = migrated t2 v w"
  by (simp add: migrated_def)

lemma migrate_time_free:
  "\<forall>v \<in> set L. date_truthy (legacy_createdAt v) \<Longrightarrow> migrateLegacy t1 L s = migrateLegacy t2 L s"
proof (induction L arbitrary: s)
  case Nil then show ?case by simp
next
  case (Cons v L)
  then have "migrated t1 v w = migrated t2 v w" for w by (simp add: migrated_time_free)
  with Cons show ?case by (simp split: option.splits)
qed

lemma migrate_skip:
  "\<not> str_truthy (legacy_word v) \<Longrightarrow> migrateLegacy t (v # L) s = migrateLegacy t L s"
  by (cases "legacy_word v") simp_all

text \<open>
  Claim C9. The migration is idempotent: on a store with at most one card per id, a
  second run over the same legacy records (at instant \<open>t2\<close>, after a run at \<open>t1\<close>)
  leaves exactly the store that a single run at \<open>t2\<close> leaves, with no two cards of the
  same id; it adds no record to those of the first run; the id of a migrated record
  depends on the legacy record only; when every legacy record carries a creation date,
  the second run changes nothing at all. A legacy record without a truthy \<open>word\<close> is
  passed over.
\<close>

theorem migration_idempotent:
  "(distinct (map card_id s) \<longrightarrow>
      migrateLegacy t2 L (migrateLegacy t1 L s) = migrateLegacy t2 L s
      \<and> distinct (map card_id (migrateLegacy t2 L (migrateLegacy t1 L s))))
   \<and> map card_id (migrateLegacy t2 L (migrateLegacy t1 L s))
       = map card_id (migrateLegacy t1 L s)
   \<and> card_id (migrated t1 v w) = card_id (migrated t2 v w)
   \<and> ((\<forall>u \<in> set L. date_truthy (legacy_createdAt u)) \<and> distinct (map card_id s) \<longrightarrow>
        migrateLegacy t2 L (migrateLegacy t1 L s) = migrateLegacy t1 L s)
   \<and> (\<not> str_truthy (legacy_word v) \<longrightarrow>
        migrateLegacy t (v # L) s = migrateLegacy t L s)"
proof (intro conjI impI)
  assume d: "distinct (map card_id s)"
  show "migrateLegacy t2 L (migrateLegacy t1 L s) = migrateLegacy t2 L s"
    using d by (rule migrate_twice)
  show "distinct (map card_id (migrateLegacy t2 L (migrateLegacy t1 L s)))"
    using d by (intro distinct_migrateLegacy)
next
  show "map card_id (migrateLegacy t2 L (migrateLegacy t1 L s))
       = map card_id (migrateLegacy t1 L s)"
    using written_ids_present by (rule ids_migrateLegacy_fixed)
  show "card_id (migrated t1 v w) = card_id (migrated t2 v w)"
    by (simp add: migrated_def Let_def)
next
  assume h: "(\<forall>u \<in> set L. date_truthy (legacy_createdAt u)) \<and> distinct (map card_id s)"
  then have "migrateLegacy t2 L (migrateLegacy t1 L s) = migrateLegacy t2 L s"
    by (simp add: migrate_twice)
  also have "\<dots> = migrateLegacy t1 L s"
    using h by (intro migrate_time_free) simp
  finally show "migrateLegacy t2 L (migrateLegacy t1 L s) = migrateLegacy t1 L s" .
next
  assume "\<not> str_truthy (legacy_word v)"
  then show "migrateLegacy t (v # L) s = migrateLegacy t L s"
    by (rule migrate_skip)
qed

lemmas legacy_eval = sampleLegacy_def sampleLegacyNoWord_def migrated_def Let_def

theorem migration_idempotent_witness:
  "distinct (map card_id ([] :: card list))
   \<and> migrateLegacy 2 [sampleLegacy, sampleLegacyNoWord]
        (migrateLegacy 1 [sampleLegacy, sampleLegacyNoWord] [])
      = migrateLegacy 2 [sampleLegacy, sampleLegacyNoWord] []
   \<and> map card_id (migrateLegacy 2 [sampleLegacy, sampleLegacyNoWord] []) = [''chat:1:apple'']
   \<and> date_truthy (legacy_createdAt (sampleLegacy\<lparr>legacy_createdAt := DateMs 7\<rparr>))
   \<and> migrateLegacy 2 [sampleLegacy\<lparr>legacy_createdAt := DateMs 7\<rparr>]
        (migrateLegacy 1 [sampleLegacy\<lparr>legacy_createdAt := DateMs 7\<rparr>] [])
      = migrateLegacy 1 [sampleLegacy\<lparr>legacy_createdAt := DateMs 7\<rparr>] []
   \<and> \<not> str_truthy (legacy_word sampleLegacyNoWord)
   \<and> migrateLegacy 1 [sampleLegacyNoWord, sampleLegacy] [] = migrateLegacy 1 [sampleLegacy] []"
proof -
  let ?L = "[sampleLegacy, sampleLegacyNoWord]"
  let ?L7 = "[sampleLegacy\<lparr>legacy_createdAt := DateMs 7\<rparr>]"
  have d: "distinct (map card_id ([] :: card list))"
    by simp
  have c7: "\<forall>u \<in> set ?L7. date_truthy (legacy_createdAt u)"
    by simp
  have nw: "\<not> str_truthy (legacy_word sampleLegacyNoWord)"
    by (simp add: legacy_eval)
  have ids: "map card_id (migrateLegacy 2 ?L []) = [''chat:1:apple'']"
    by (simp add: legacy_eval)
  from migration_idempotent [where s = "[]" and L = ?L and ?t1.0 = 1 and ?t2.0 = 2] d
  have r1: "migrateLegacy 2 ?L (migrateLegacy 1 ?L []) = migrateLegacy 2 ?L []"
    by blast
  from migration_idempotent [where s = "[]" and L = ?L7 and ?t1.0 = 1 and ?t2.0 = 2] d c7
  have r2: "migrateLegacy 2 ?L7 (migrateLegacy 1 ?L7 []) = migrateLegacy 1 ?L7 []"
    by blast
  from migration_idempotent [where s = "[]" and L = "[sampleLegacy]" and t = 1
      and v = sampleLegacyNoWord] nw
  have r3: "migrateLegacy 1 [sampleLegacyNoWord, sampleLegacy] []
      = migrateLegacy 1 [sampleLegacy] []"
    by blast
  have c7': "date_truthy (legacy_createdAt (sampleLegacy\<lparr>legacy_createdAt := DateMs 7\<rparr>))"
    by simp
  from d r1 ids c7' r2 nw r3 show ?thesis
    by blast
qed

text \<open>
  A legacy record without a creation date gets the instant of the run as its creation
  date, so the second run stamps it anew.
\<close>

lemma migration_restamps_missing_createdAt:
  "map createdAt (migrateLegacy 2 [sampleLegacy] (migrateLegacy 1 [sampleLegacy] []))
     = [DateMs 2]
   \<and> map createdAt (migrateLegacy 1 [sampleLegacy] []) = [DateMs 1]"
  by (simp add: legacy_eval)

end
